theory Spec2Isabelle
  imports Main "HOL-Library.AList"
begin

section \<open>Values carried by messages and by the presence store\<close>

text \<open>
  Message payloads are Go values of type \<^verbatim>\<open>interface{}\<close>, mostly
  \<^verbatim>\<open>map[string]interface{}\<close>. \<open>JObj\<close> is such a map, \<open>JTime\<close> a
  \<^verbatim>\<open>time.Time\<close> (RFC 3339 text on the wire, a number of seconds here).
\<close>

datatype jvalue =
    JNull
  | JBool bool
  | JInt int
  | JStr string
  | JTime nat
  | JObj "string \<Rightarrow> jvalue option"

text \<open>
  A field value of a Redis hash: JSON text, named by the value it encodes, or text
  that is not JSON at all.
\<close>

datatype redis_value = Json jvalue | Raw string

definition json_Marshal :: "jvalue \<Rightarrow> redis_value" where
  "json_Marshal v = Json v"

text \<open>
  \<^verbatim>\<open>json.Unmarshal\<close> into a \<^verbatim>\<open>map[string]interface{}\<close>: an object
  decodes, \<^verbatim>\<open>null\<close> leaves the map nil (it reads as an empty map), anything
  else is an error (\<open>None\<close>).
\<close>

fun json_Unmarshal :: "redis_value \<Rightarrow> (string \<Rightarrow> jvalue option) option" where
  "json_Unmarshal (Json (JObj m)) = Some m"
| "json_Unmarshal (Json JNull) = Some Map.empty"
| "json_Unmarshal (Json (JBool b)) = None"
| "json_Unmarshal (Json (JInt i)) = None"
| "json_Unmarshal (Json (JStr s)) = None"
| "json_Unmarshal (Json (JTime t)) = None"
| "json_Unmarshal (Raw s) = None"

section \<open>Data model\<close>

text \<open>
  \<open>Conn\<close> is the identity of the socket (\<^verbatim>\<open>*websocket.Conn\<close>); the write
  mutex of a connection has no counterpart in a sequential model.
\<close>

record WSConnection =
  Conn :: nat
  UserID :: string
  UserType :: string
  SessionID :: string

record WebSocketMessage =
  MsgType :: string
  MsgSessionID :: string
  MsgUserID :: string
  MsgUserType :: string
  MsgData :: jvalue
  MsgTimestamp :: nat

record WebSocketResponse =
  Type :: string
  Success :: bool
  Data :: jvalue
  Error :: string

text \<open>The two message types this service publishes on the bus.\<close>

datatype kafka_message =
    TypingMessage string string string string bool nat
  | ConnectionStatusMessage string string "string \<Rightarrow> jvalue option" nat

fun getTopicForMessage :: "kafka_message \<Rightarrow> string" where
  "getTopicForMessage (TypingMessage ty sid uid ut b ts) = ''typing-indicators''"
| "getTopicForMessage (ConnectionStatusMessage ty sid st ts) = ''connection-status''"

text \<open>
  The outcome of \<^verbatim>\<open>WriteJSON\<close> on a socket. A panic is recovered by the
  deferred \<^verbatim>\<open>recover()\<close> of \<^verbatim>\<open>safeWriteJSON\<close> and
  \<^verbatim>\<open>safeWriteToConn\<close>, which then return the zero error value (nil).
\<close>

datatype write_result = Written | WriteError | WritePanic

datatype redis_command =
    HSET string string redis_value
  | HDEL string string
  | HGETALL string
  | SET string string nat
  | DEL string

text \<open>
  The effects of the manager in the order they happen: registry calls, commands sent
  to the store (with whether they returned an error), broadcast calls, socket writes,
  bus publishes and the closing of a socket.
\<close>

datatype event =
    Added string WSConnection
  | Removed string string
  | Redis redis_command bool
  | Broadcast string WebSocketResponse
  | Write nat WebSocketResponse write_result
  | Kafka string kafka_message bool
  | Closed nat

text \<open>
  What the program does not decide: the library's \<^verbatim>\<open>uuid.Parse\<close> and
  \<^verbatim>\<open>uuid.New\<close>, the clock, the outcome of each socket write, and whether a
  call to the store or to the bus fails. Each is read at the manager's \<open>tick\<close>, which
  counts the external calls made so far.
\<close>

record world =
  uuid_Parse :: "string \<Rightarrow> bool"
  uuid_New :: "nat \<Rightarrow> string"
  time_Now :: "nat \<Rightarrow> nat"
  WriteJSON :: "nat \<Rightarrow> nat \<Rightarrow> write_result"
  redis_fails :: "nat \<Rightarrow> bool"
  kafka_fails :: "nat \<Rightarrow> bool"

text \<open>
  The store behind \<^verbatim>\<open>RedisClient\<close>: hashes (fields in the order HGETALL
  returns them; a missing key is the empty hash) and string keys with the instant
  they expire at.
\<close>

record RedisStore =
  hashes :: "string \<Rightarrow> (string \<times> redis_value) list"
  strings :: "string \<Rightarrow> (string \<times> nat) option"

text \<open>
  The manager: the registry (\<^verbatim>\<open>map[string][]*WSConnection\<close>), the store its
  client talks to, the number of external calls made so far and the trace of its
  effects. The model runs one call at a time, so the mutex of the registry has no
  counterpart; what the claims say about the order of steps is read off the trace.
\<close>

record WSManager =
  connections :: "string \<Rightarrow> WSConnection list option"
  redisClient :: RedisStore
  tick :: nat
  trace :: "event list"

definition NewWSManager :: "RedisStore \<Rightarrow> WSManager" where
  "NewWSManager store =
     \<lparr>connections = Map.empty, redisClient = store, tick = 0, trace = []\<rparr>"

section \<open>Connection registry\<close>

definition addConnection :: "WSManager \<Rightarrow> string \<Rightarrow> WSConnection \<Rightarrow> WSManager" where
  "addConnection w sessionID conn =
     (let m = (case connections w sessionID of
                 None \<Rightarrow> (connections w)(sessionID \<mapsto> [])
               | Some cs \<Rightarrow> connections w);
          cur = (case m sessionID of Some cs \<Rightarrow> cs | None \<Rightarrow> [])
      in w\<lparr>connections := m(sessionID \<mapsto> cur @ [conn]),
           trace := trace w @ [Added sessionID conn]\<rparr>)"

text \<open>The range loop of \<^verbatim>\<open>removeConnection\<close> up to its \<^verbatim>\<open>break\<close>.\<close>

fun find_user :: "string \<Rightarrow> WSConnection list \<Rightarrow> nat \<Rightarrow> nat option" where
  "find_user userID [] i = None"
| "find_user userID (conn # rest) i =
     (if UserID conn = userID then Some i else find_user userID rest (Suc i))"

definition removeConnection :: "WSManager \<Rightarrow> string \<Rightarrow> string \<Rightarrow> WSManager" where
  "removeConnection w sessionID userID =
     (let w' = w\<lparr>trace := trace w @ [Removed sessionID userID]\<rparr>
      in case connections w sessionID of
           None \<Rightarrow> w'
         | Some conns \<Rightarrow>
             (let m = (case find_user userID conns 0 of
                         Some i \<Rightarrow> (connections w)(sessionID \<mapsto> take i conns @ drop (Suc i) conns)
                       | None \<Rightarrow> connections w)
              in if length (case m sessionID of Some cs \<Rightarrow> cs | None \<Rightarrow> []) = 0
                 then w'\<lparr>connections := m(sessionID := None)\<rparr>
                 else w'\<lparr>connections := m\<rparr>))"

definition GetSessionConnectionCount :: "WSManager \<Rightarrow> string \<Rightarrow> nat" where
  "GetSessionConnectionCount w sessionID =
     (case connections w sessionID of Some cs \<Rightarrow> length cs | None \<Rightarrow> 0)"

section \<open>Presence store client\<close>

definition users_key :: "string \<Rightarrow> string" where
  "users_key sessionID = ''session:'' @ sessionID @ '':users''"

definition typing_key :: "string \<Rightarrow> string \<Rightarrow> string" where
  "typing_key sessionID userID = ''session:'' @ sessionID @ '':typing:'' @ userID"

text \<open>
  The contract of the store, an external collaborator, for the commands the client
  sends: what a command that succeeds does at the instant \<open>now\<close>. HSET overwrites
  the field or adds it, HDEL removes it, HGETALL changes nothing, SET with a time to
  live keeps the value until \<open>now + ttl\<close>, DEL removes the key. Hashes
  (\<^verbatim>\<open>session:<id>:users\<close>) and string keys
  (\<^verbatim>\<open>session:<id>:typing:<user>\<close>) are kept in two maps.
\<close>

fun redis_apply :: "nat \<Rightarrow> redis_command \<Rightarrow> RedisStore \<Rightarrow> RedisStore" where
  "redis_apply now (HSET key field v) r =
     r\<lparr>hashes := (hashes r)(key := AList.update field v (hashes r key))\<rparr>"
| "redis_apply now (HDEL key field) r =
     r\<lparr>hashes := (hashes r)(key := AList.delete field (hashes r key))\<rparr>"
| "redis_apply now (HGETALL key) r = r"
| "redis_apply now (SET key v ttl) r = r\<lparr>strings := (strings r)(key \<mapsto> (v, now + ttl))\<rparr>"
| "redis_apply now (DEL key) r = r\<lparr>strings := (strings r)(key := None)\<rparr>"

text \<open>A string key is there until it expires.\<close>

definition string_get :: "RedisStore \<Rightarrow> nat \<Rightarrow> string \<Rightarrow> string option" where
  "string_get r now key =
     (case strings r key of
        None \<Rightarrow> None
      | Some (v, expires) \<Rightarrow> if now < expires then Some v else None)"

text \<open>
  One call to the store: it fails as a whole (the error is returned, the store is as
  before) or takes effect. The flag returned is \<^verbatim>\<open>err != nil\<close>.
\<close>

definition redis_call :: "world \<Rightarrow> WSManager \<Rightarrow> redis_command \<Rightarrow> bool \<times> WSManager" where
  "redis_call env w cmd =
     (let failed = redis_fails env (tick w)
      in (failed,
          w\<lparr>redisClient := (if failed then redisClient w
                             else redis_apply (time_Now env (tick w)) cmd (redisClient w)),
            tick := Suc (tick w),
            trace := trace w @ [Redis cmd failed]\<rparr>))"

definition AddUserToSession ::
  "world \<Rightarrow> WSManager \<Rightarrow> string \<Rightarrow> string \<Rightarrow> string \<Rightarrow> bool \<times> WSManager" where
  "AddUserToSession env w sessionID userID userType =
     (let key = users_key sessionID;
          userInfo = [''user_id'' \<mapsto> JStr userID,
                      ''user_type'' \<mapsto> JStr userType,
                      ''joined_at'' \<mapsto> JTime (time_Now env (tick w))];
          userJSON = json_Marshal (JObj userInfo)
      in redis_call env w (HSET key userID userJSON))"

definition RemoveUserFromSession ::
  "world \<Rightarrow> WSManager \<Rightarrow> string \<Rightarrow> string \<Rightarrow> string \<Rightarrow> bool \<times> WSManager" where
  "RemoveUserFromSession env w sessionID userID userType =
     (let key = users_key sessionID in redis_call env w (HDEL key userID))"

text \<open>The body of the loop of \<^verbatim>\<open>GetSessionUsers\<close> over the fields read.\<close>

fun count_user ::
  "string \<times> redis_value \<Rightarrow> (string \<Rightarrow> jvalue option) \<times> int \<times> int
     \<Rightarrow> (string \<Rightarrow> jvalue option) \<times> int \<times> int" where
  "count_user (userID, userJSON) (result, customerCount, agentCount) =
     (case json_Unmarshal userJSON of
        None \<Rightarrow> (result, customerCount, agentCount)
      | Some userInfo \<Rightarrow>
          (let userType = (case userInfo ''user_type'' of Some (JStr s) \<Rightarrow> s | _ \<Rightarrow> '''');
               counts = (if userType = ''customer'' then (customerCount + 1, agentCount)
                         else if userType = ''agent'' then (customerCount, agentCount + 1)
                         else (customerCount, agentCount))
           in (result(userID \<mapsto> JObj userInfo), counts)))"

definition session_status :: "(string \<times> redis_value) list \<Rightarrow> string \<Rightarrow> jvalue option" where
  "session_status users =
     (case fold count_user users (Map.empty, 0, 0) of
        (result, customerCount, agentCount) \<Rightarrow>
          [''users'' \<mapsto> JObj result,
           ''customer_connected'' \<mapsto> JBool (customerCount > 0),
           ''agent_connected'' \<mapsto> JBool (agentCount > 0),
           ''total_customer'' \<mapsto> JInt customerCount,
           ''total_agent'' \<mapsto> JInt agentCount])"

text \<open>\<open>None\<close> is the error return \<^verbatim>\<open>(nil, err)\<close>.\<close>

definition GetSessionUsers ::
  "world \<Rightarrow> WSManager \<Rightarrow> string \<Rightarrow> (string \<Rightarrow> jvalue option) option \<times> WSManager" where
  "GetSessionUsers env w sessionID =
     (let key = users_key sessionID;
          users = hashes (redisClient w) key
      in case redis_call env w (HGETALL key) of
           (True, w') \<Rightarrow> (None, w')
         | (False, w') \<Rightarrow> (Some (session_status users), w'))"

definition SetUserTyping ::
  "world \<Rightarrow> WSManager \<Rightarrow> string \<Rightarrow> string \<Rightarrow> bool \<Rightarrow> bool \<times> WSManager" where
  "SetUserTyping env w sessionID userID isTyping =
     (let key = typing_key sessionID userID
      in if isTyping then redis_call env w (SET key ''true'' 30)
         else redis_call env w (DEL key))"

section \<open>Bus producer\<close>

definition SendMessage :: "world \<Rightarrow> WSManager \<Rightarrow> kafka_message \<Rightarrow> bool \<times> WSManager" where
  "SendMessage env w message =
     (let failed = kafka_fails env (tick w)
      in (failed,
          w\<lparr>tick := Suc (tick w),
            trace := trace w @ [Kafka (getTopicForMessage message) message failed]\<rparr>))"

section \<open>Writing to sockets and broadcasting\<close>

text \<open>
  A direct write on the socket \<open>c\<close>. The flag returned is \<^verbatim>\<open>err != nil\<close>:
  a recovered panic returns nil.
\<close>

definition safeWriteToConn ::
  "world \<Rightarrow> WSManager \<Rightarrow> nat \<Rightarrow> WebSocketResponse \<Rightarrow> bool \<times> WSManager" where
  "safeWriteToConn env w c message =
     (let r = WriteJSON env (tick w) c
      in (r = WriteError,
          w\<lparr>tick := Suc (tick w), trace := trace w @ [Write c message r]\<rparr>))"

definition sendWelcomeMessage ::
  "world \<Rightarrow> WSManager \<Rightarrow> nat \<Rightarrow> string \<Rightarrow> string \<Rightarrow> string \<Rightarrow> WSManager" where
  "sendWelcomeMessage env w c sessionID userID userType =
     (let response = \<lparr>Type = ''connection_established'', Success = True,
                       Data = JObj [''session_id'' \<mapsto> JStr sessionID,
                                    ''user_id'' \<mapsto> JStr userID,
                                    ''user_type'' \<mapsto> JStr userType,
                                    ''timestamp'' \<mapsto> JTime (time_Now env (tick w)),
                                    ''message'' \<mapsto> JStr ''Successfully connected to chat session''],
                       Error = ''''\<rparr>
      in snd (safeWriteToConn env w c response))"

definition sendErrorResponse :: "world \<Rightarrow> WSManager \<Rightarrow> nat \<Rightarrow> string \<Rightarrow> WSManager" where
  "sendErrorResponse env w c errorMsg =
     (let response = \<lparr>Type = ''error'', Success = False, Data = JNull, Error = errorMsg\<rparr>
      in snd (safeWriteToConn env w c response))"

text \<open>
  One delivery of \<^verbatim>\<open>broadcastToSession\<close>: the body of the goroutine started
  for the connection \<open>c\<close> of the snapshot. The deliveries of one broadcast run
  concurrently, so all of them read the socket outcomes of the same instant \<open>t\<close>;
  the model runs them one after the other, in the order of the snapshot.
\<close>

definition deliver ::
  "world \<Rightarrow> nat \<Rightarrow> string \<Rightarrow> WebSocketResponse \<Rightarrow> WSConnection \<Rightarrow> WSManager \<Rightarrow> WSManager" where
  "deliver env t sessionID message c w =
     (let r = WriteJSON env t (Conn c);
          w' = w\<lparr>trace := trace w @ [Write (Conn c) message r]\<rparr>
      in if r = WriteError then removeConnection w' sessionID (UserID c) else w')"

definition broadcastToSession ::
  "world \<Rightarrow> WSManager \<Rightarrow> string \<Rightarrow> WebSocketResponse \<Rightarrow> WSManager" where
  "broadcastToSession env w sessionID message =
     (let conns = (case connections w sessionID of Some cs \<Rightarrow> cs | None \<Rightarrow> []);
          w0 = w\<lparr>trace := trace w @ [Broadcast sessionID message]\<rparr>
      in if length conns = 0 then w0
         else fold (deliver env (tick w) sessionID message) conns (w0\<lparr>tick := Suc (tick w)\<rparr>))"

section \<open>Handlers of inbound messages\<close>

definition handleTypingIndicator ::
  "world \<Rightarrow> WSManager \<Rightarrow> string \<Rightarrow> string \<Rightarrow> string \<Rightarrow> bool \<Rightarrow> WSManager" where
  "handleTypingIndicator env w sessionID userID userType isTyping =
     (let w1 = snd (SetUserTyping env w sessionID userID isTyping);
          typingWSMessage =
            \<lparr>Type = ''typing_indicator'', Success = False,
             Data = JObj [''session_id'' \<mapsto> JStr sessionID,
                          ''user_id'' \<mapsto> JStr userID,
                          ''sender_type'' \<mapsto> JStr userType,
                          ''is_typing'' \<mapsto> JBool isTyping,
                          ''timestamp'' \<mapsto> JTime (time_Now env (tick w1))],
             Error = ''''\<rparr>;
          w2 = broadcastToSession env w1 sessionID typingWSMessage
      in if \<not> uuid_Parse env sessionID then w2
         else snd (SendMessage env w2
                (TypingMessage ''typing_indicator'' sessionID userID userType isTyping
                   (time_Now env (tick w2)))))"

definition handleSendMessage :: "world \<Rightarrow> WSManager \<Rightarrow> nat \<Rightarrow> WebSocketMessage \<Rightarrow> WSManager" where
  "handleSendMessage env w c msg =
     (let response = \<lparr>Type = ''message_sent'', Success = True,
                       Data = JObj [''message_id'' \<mapsto> JStr (uuid_New env (tick w)),
                                    ''timestamp'' \<mapsto> JTime (time_Now env (tick w))],
                       Error = ''''\<rparr>
      in snd (safeWriteToConn env w c response))"

text \<open>
  The value of \<^verbatim>\<open>isTyping\<close> for \<^verbatim>\<open>typing_start\<close> and
  \<^verbatim>\<open>agent_typing\<close>: true, unless the data is a map whose
  \<^verbatim>\<open>is_typing\<close> is a boolean.
\<close>

definition isTyping_of :: "jvalue \<Rightarrow> bool" where
  "isTyping_of data =
     (case data of
        JObj dataMap \<Rightarrow>
          (case dataMap ''is_typing'' of
             Some (JBool typing) \<Rightarrow> typing
           | _ \<Rightarrow> True)
      | _ \<Rightarrow> True)"

definition handleIncomingMessage ::
  "world \<Rightarrow> WSManager \<Rightarrow> nat \<Rightarrow> WebSocketMessage \<Rightarrow> string \<Rightarrow> string \<Rightarrow> string \<Rightarrow> WSManager" where
  "handleIncomingMessage env w c msg sessionID userID userType =
     (if MsgType msg = ''join_session'' then
        snd (safeWriteToConn env w c
          \<lparr>Type = ''session_joined'', Success = True,
           Data = JObj [''session_id'' \<mapsto> JStr sessionID,
                        ''user_id'' \<mapsto> JStr userID,
                        ''user_type'' \<mapsto> JStr userType,
                        ''timestamp'' \<mapsto> JTime (time_Now env (tick w))],
           Error = ''''\<rparr>)
      else if MsgType msg = ''typing_start'' \<or> MsgType msg = ''agent_typing'' then
        handleTypingIndicator env w sessionID userID userType (isTyping_of (MsgData msg))
      else if MsgType msg = ''typing_stop'' then
        handleTypingIndicator env w sessionID userID userType False
      else if MsgType msg = ''send_message'' then
        handleSendMessage env w c msg
      else if MsgType msg = ''ping'' then
        snd (safeWriteToConn env w c
          \<lparr>Type = ''pong'', Success = True,
           Data = JObj [''timestamp'' \<mapsto> JTime (time_Now env (tick w))],
           Error = ''''\<rparr>)
      else sendErrorResponse env w c (''Unknown message type: '' @ MsgType msg))"

section \<open>Status broadcast and connection lifecycle\<close>

definition broadcastConnectionStatusWithContext ::
  "world \<Rightarrow> WSManager \<Rightarrow> string \<Rightarrow> string \<Rightarrow> string \<Rightarrow> WSManager" where
  "broadcastConnectionStatusWithContext env w sessionID eventType eventUserID =
     (case GetSessionUsers env w sessionID of
        (None, w1) \<Rightarrow> w1
      | (Some status, w1) \<Rightarrow>
          (let messageData = [''session_id'' \<mapsto> JStr sessionID,
                              ''connection_status'' \<mapsto> JObj status,
                              ''timestamp'' \<mapsto> JTime (time_Now env (tick w1))];
               messageData = (if eventType \<noteq> '''' then messageData(''event_type'' \<mapsto> JStr eventType)
                              else messageData);
               messageData = (if eventUserID \<noteq> ''''
                              then messageData(''event_user_id'' \<mapsto> JStr eventUserID)
                              else messageData);
               connectionWSMessage = \<lparr>Type = ''connection_status_update'', Success = False,
                                      Data = JObj messageData, Error = ''''\<rparr>;
               w2 = broadcastToSession env w1 sessionID connectionWSMessage
           in if \<not> uuid_Parse env sessionID then w2
              else snd (SendMessage env w2
                     (ConnectionStatusMessage ''connection_status'' sessionID status
                        (time_Now env (tick w2))))))"

text \<open>
  The read loop: \<open>frames\<close> are the messages \<^verbatim>\<open>ReadJSON\<close> returns before
  the read that fails, which ends the loop.
\<close>

fun read_loop ::
  "world \<Rightarrow> nat \<Rightarrow> string \<Rightarrow> string \<Rightarrow> string \<Rightarrow> WebSocketMessage list \<Rightarrow> WSManager \<Rightarrow> WSManager" where
  "read_loop env c sessionID userID userType [] w = w"
| "read_loop env c sessionID userID userType (msg # frames) w =
     read_loop env c sessionID userID userType frames
       (handleIncomingMessage env w c msg sessionID userID userType)"

text \<open>
  The deferred calls of \<^verbatim>\<open>HandleConnection\<close>, run when it returns, last
  registered first: the removal from the store (registered third), then the closure
  registered second (registry removal and status broadcast), then
  \<^verbatim>\<open>c.Close()\<close> (registered first).
\<close>

definition run_deferred ::
  "world \<Rightarrow> WSManager \<Rightarrow> nat \<Rightarrow> string \<Rightarrow> string \<Rightarrow> string \<Rightarrow> WSManager" where
  "run_deferred env w c sessionID userID userType =
     (let w1 = snd (RemoveUserFromSession env w sessionID userID userType);
          w2 = removeConnection w1 sessionID userID;
          w3 = broadcastConnectionStatusWithContext env w2 sessionID ''user_disconnected'' userID
      in w3\<lparr>trace := trace w3 @ [Closed c]\<rparr>)"

text \<open>The part of \<^verbatim>\<open>HandleConnection\<close> from registration to the read loop.\<close>

definition enter_active ::
  "world \<Rightarrow> WSManager \<Rightarrow> nat \<Rightarrow> string \<Rightarrow> string \<Rightarrow> string \<Rightarrow> WSManager" where
  "enter_active env w c sessionID userID userType =
     (let wsConn = \<lparr>Conn = c, UserID = userID, UserType = userType, SessionID = sessionID\<rparr>;
          w1 = addConnection w sessionID wsConn;
          w2 = snd (AddUserToSession env w1 sessionID userID userType);
          w3 = broadcastConnectionStatusWithContext env w2 sessionID ''user_connected'' userID
      in sendWelcomeMessage env w3 c sessionID userID userType)"

definition HandleConnection ::
  "world \<Rightarrow> WSManager \<Rightarrow> nat \<Rightarrow> string \<Rightarrow> string \<Rightarrow> string \<Rightarrow> WebSocketMessage list \<Rightarrow> WSManager" where
  "HandleConnection env w c sessionID userID userType frames =
     (if \<not> uuid_Parse env sessionID then
        (let w1 = sendErrorResponse env w c ''Invalid session ID format''
         in w1\<lparr>trace := trace w1 @ [Closed c]\<rparr>)
      else
        (let w1 = enter_active env w c sessionID userID userType;
             w2 = read_loop env c sessionID userID userType frames w1
         in run_deferred env w2 c sessionID userID userType))"

section \<open>Notions used to state the properties\<close>

subsection \<open>States of the registry\<close>

text \<open>
  The states of the manager the program can be in: it starts with an empty registry,
  and the registry changes through \<open>addConnection\<close> and \<open>removeConnection\<close> only.
\<close>

inductive reachable :: "WSManager \<Rightarrow> bool" where
  new: "reachable (NewWSManager store)"
| add: "reachable w \<Longrightarrow> reachable (addConnection w sessionID conn)"
| remove: "reachable w \<Longrightarrow> reachable (removeConnection w sessionID userID)"
| other: "reachable w \<Longrightarrow> connections w' = connections w \<Longrightarrow> reachable w'"

definition no_empty_session :: "WSManager \<Rightarrow> bool" where
  "no_empty_session w = (\<forall>s. connections w s \<noteq> Some [])"

text \<open>The connections a broadcast to the session \<open>s\<close> copies under the read lock.\<close>

definition snapshot :: "WSManager \<Rightarrow> string \<Rightarrow> WSConnection list" where
  "snapshot w s = (case connections w s of Some cs \<Rightarrow> cs | None \<Rightarrow> [])"

subsection \<open>Entries of the presence store\<close>

text \<open>The entry \<open>AddUserToSession\<close> writes for a user at the instant \<open>t\<close>.\<close>

definition entry :: "string \<Rightarrow> string \<Rightarrow> nat \<Rightarrow> redis_value" where
  "entry userID userType t =
     Json (JObj [''user_id'' \<mapsto> JStr userID, ''user_type'' \<mapsto> JStr userType, ''joined_at'' \<mapsto> JTime t])"

text \<open>
  A stored entry has the role \<open>role\<close> when it decodes to an object whose
  \<^verbatim>\<open>user_type\<close> is that string; \<open>count_role\<close> is the number of such
  entries.
\<close>

definition has_role :: "string \<Rightarrow> string \<times> redis_value \<Rightarrow> bool" where
  "has_role role e =
     (case json_Unmarshal (snd e) of
        None \<Rightarrow> False
      | Some info \<Rightarrow> info ''user_type'' = Some (JStr role))"

definition count_role :: "string \<Rightarrow> (string \<times> redis_value) list \<Rightarrow> int" where
  "count_role role users = int (length (filter (has_role role) users))"

text \<open>The entries of a session that belong to other users than \<open>u\<close>.\<close>

definition others :: "string \<Rightarrow> (string \<times> redis_value) list \<Rightarrow> (string \<times> redis_value) list" where
  "others u users = filter (\<lambda>e. fst e \<noteq> u) users"

text \<open>No hash of the store holds two fields of the same name.\<close>

definition one_entry_per_user :: "RedisStore \<Rightarrow> bool" where
  "one_entry_per_user r = (\<forall>k. distinct (map fst (hashes r k)))"

text \<open>A sequence of joins \<open>(session, user, role)\<close>, in order.\<close>

definition joins :: "world \<Rightarrow> (string \<times> string \<times> string) list \<Rightarrow> WSManager \<Rightarrow> WSManager" where
  "joins env js w = fold (\<lambda>(sid, uid, ut) w. snd (AddUserToSession env w sid uid ut)) js w"

subsection \<open>Reading a trace\<close>

text \<open>The events a call added to the trace of \<open>w\<close>.\<close>

definition new_events :: "WSManager \<Rightarrow> WSManager \<Rightarrow> event list" where
  "new_events w w' = drop (length (trace w)) (trace w')"

text \<open>
  What one delivery adds to the trace: the write, and the registry removal that
  follows a write error.
\<close>

definition delivery_events ::
  "world \<Rightarrow> nat \<Rightarrow> string \<Rightarrow> WebSocketResponse \<Rightarrow> WSConnection \<Rightarrow> event list" where
  "delivery_events env t s m c =
     (if WriteJSON env t (Conn c) = WriteError
      then [Write (Conn c) m WriteError, Removed s (UserID c)]
      else [Write (Conn c) m (WriteJSON env t (Conn c))])"

text \<open>A write is delivered unless it returns an error.\<close>

definition delivered :: "world \<Rightarrow> nat \<Rightarrow> WSConnection \<Rightarrow> bool" where
  "delivered env t c = (WriteJSON env t (Conn c) \<noteq> WriteError)"

text \<open>The broadcast calls of a trace, in order.\<close>

fun broadcast_of :: "event \<Rightarrow> (string \<times> WebSocketResponse) list" where
  "broadcast_of (Broadcast s m) = [(s, m)]"
| "broadcast_of (Added s c) = []"
| "broadcast_of (Removed s u) = []"
| "broadcast_of (Redis cmd f) = []"
| "broadcast_of (Write c m r) = []"
| "broadcast_of (Kafka t m f) = []"
| "broadcast_of (Closed c) = []"

definition broadcasts :: "event list \<Rightarrow> (string \<times> WebSocketResponse) list" where
  "broadcasts evs = concat (map broadcast_of evs)"

text \<open>The commands sent to the store in a trace, in order.\<close>

fun redis_command_of :: "event \<Rightarrow> redis_command list" where
  "redis_command_of (Redis cmd f) = [cmd]"
| "redis_command_of (Broadcast s m) = []"
| "redis_command_of (Added s c) = []"
| "redis_command_of (Removed s u) = []"
| "redis_command_of (Write c m r) = []"
| "redis_command_of (Kafka t m f) = []"
| "redis_command_of (Closed c) = []"

definition redis_commands :: "event list \<Rightarrow> redis_command list" where
  "redis_commands evs = concat (map redis_command_of evs)"

text \<open>
  The local events of a trace: those that happen inside the process (registry
  changes, broadcasts, socket writes, closing), as opposed to the calls to the store
  and to the bus.
\<close>

fun is_local :: "event \<Rightarrow> bool" where
  "is_local (Redis cmd f) = False"
| "is_local (Kafka t m f) = False"
| "is_local (Added s c) = True"
| "is_local (Removed s u) = True"
| "is_local (Broadcast s m) = True"
| "is_local (Write c m r) = True"
| "is_local (Closed c) = True"

definition local_events :: "event list \<Rightarrow> event list" where
  "local_events evs = filter is_local evs"

subsection \<open>Reading a message\<close>

text \<open>A field of a payload that is a map.\<close>

definition field :: "jvalue \<Rightarrow> string \<Rightarrow> jvalue option" where
  "field v k = (case v of JObj m \<Rightarrow> m k | _ \<Rightarrow> None)"

text \<open>
  A field of the \<^verbatim>\<open>connection_status\<close> of a status update, and whether its
  users map lists the user \<open>u\<close>.
\<close>

definition status_field :: "WebSocketResponse \<Rightarrow> string \<Rightarrow> jvalue option" where
  "status_field m k =
     (case field (Data m) ''connection_status'' of Some st \<Rightarrow> field st k | None \<Rightarrow> None)"

definition lists_user :: "WebSocketResponse \<Rightarrow> string \<Rightarrow> bool" where
  "lists_user m u =
     (case status_field m ''users'' of Some us \<Rightarrow> field us u \<noteq> None | None \<Rightarrow> False)"

text \<open>
  What a broadcast says about the customers of its session and about the user \<open>u\<close>:
  the session, \<^verbatim>\<open>total_customer\<close>, \<^verbatim>\<open>customer_connected\<close>, and
  whether \<open>u\<close> is listed.
\<close>

definition status_summary ::
  "string \<Rightarrow> string \<times> WebSocketResponse \<Rightarrow> string \<times> jvalue option \<times> jvalue option \<times> bool" where
  "status_summary u b =
     (fst b, status_field (snd b) ''total_customer'', status_field (snd b) ''customer_connected'',
      lists_user (snd b) u)"

text \<open>
  What a broadcast says about typing: the session, the type of the message, the user
  and \<^verbatim>\<open>is_typing\<close>.
\<close>

definition typing_summary ::
  "string \<times> WebSocketResponse \<Rightarrow> string \<times> string \<times> jvalue option \<times> jvalue option" where
  "typing_summary b =
     (fst b, Type (snd b), field (Data (snd b)) ''user_id'', field (Data (snd b)) ''is_typing'')"

subsection \<open>Example inputs\<close>

text \<open>
  A world in which nothing fails, and worlds in which one thing does: the store at
  the third call (\<open>leave_fails\<close>) or at the fourth (\<open>read_fails\<close>), the store and
  the bus at every call, the socket 3 at every write.
\<close>

definition calm :: world where
  "calm = \<lparr>uuid_Parse = (\<lambda>s. True), uuid_New = (\<lambda>t. ''m1''), time_Now = (\<lambda>t. 100 + t),
           WriteJSON = (\<lambda>t c. Written), redis_fails = (\<lambda>t. False), kafka_fails = (\<lambda>t. False)\<rparr>"

definition leave_fails :: world where
  "leave_fails = calm\<lparr>redis_fails := (\<lambda>t. t = 2)\<rparr>"

definition read_fails :: world where
  "read_fails = calm\<lparr>redis_fails := (\<lambda>t. t = 3)\<rparr>"

definition store_and_bus_down :: world where
  "store_and_bus_down = calm\<lparr>redis_fails := (\<lambda>t. True), kafka_fails := (\<lambda>t. True)\<rparr>"

definition socket3_broken :: world where
  "socket3_broken = calm\<lparr>WriteJSON := (\<lambda>t c. if c = 3 then WriteError else Written)\<rparr>"

text \<open>Stores: an empty one, and one that holds the given entries for the session s1.\<close>

definition empty_store :: RedisStore where
  "empty_store = \<lparr>hashes = (\<lambda>k. []), strings = (\<lambda>k. None)\<rparr>"

definition store_of :: "(string \<times> redis_value) list \<Rightarrow> RedisStore" where
  "store_of users = \<lparr>hashes = (\<lambda>k. if k = users_key ''s1'' then users else []), strings = (\<lambda>k. None)\<rparr>"

text \<open>
  Connections of the session s1, and two states of the manager: \<open>three_tabs\<close> has
  two connections of the user cust1 around one of agent1; \<open>two_present\<close> has cust1 and
  agent1 registered and joined (its tick is 2).
\<close>

definition tab :: "nat \<Rightarrow> string \<Rightarrow> string \<Rightarrow> WSConnection" where
  "tab c userID userType =
     \<lparr>Conn = c, UserID = userID, UserType = userType, SessionID = ''s1''\<rparr>"

definition three_tabs :: WSManager where
  "three_tabs =
     addConnection (addConnection (addConnection (NewWSManager empty_store)
       ''s1'' (tab 1 ''cust1'' ''customer'')) ''s1'' (tab 2 ''agent1'' ''agent''))
       ''s1'' (tab 3 ''cust1'' ''customer'')"

definition two_present :: WSManager where
  "two_present =
     joins calm [(''s1'', ''cust1'', ''customer''), (''s1'', ''agent1'', ''agent'')]
       (addConnection (addConnection (NewWSManager (store_of []))
          ''s1'' (tab 1 ''cust1'' ''customer'')) ''s1'' (tab 2 ''agent1'' ''agent''))"

text \<open>An inbound frame of the user cust1, and an outbound message.\<close>

definition frame :: "string \<Rightarrow> jvalue \<Rightarrow> WebSocketMessage" where
  "frame ty d = \<lparr>MsgType = ty, MsgSessionID = ''s1'', MsgUserID = ''cust1'',
                 MsgUserType = ''customer'', MsgData = d, MsgTimestamp = 0\<rparr>"

definition notice :: WebSocketResponse where
  "notice = \<lparr>Type = ''new_message'', Success = False, Data = JNull, Error = ''''\<rparr>"

section \<open>The registry\<close>

lemma find_user_None: "find_user u cs i = None \<longleftrightarrow> (\<forall>c\<in>set cs. UserID c \<noteq> u)"
  by (induction cs arbitrary: i) auto

lemma find_user_first:
  "\<forall>x\<in>set pre. UserID x \<noteq> u \<Longrightarrow> UserID c = u \<Longrightarrow>
   find_user u (pre @ c # post) i = Some (i + length pre)"
  by (induction pre arbitrary: i) auto

lemma connections_add:
  "connections (addConnection w s c) =
     (connections w)(s \<mapsto> (case connections w s of Some cs \<Rightarrow> cs | None \<Rightarrow> []) @ [c])"
  by (auto simp: addConnection_def Let_def split: option.splits)

lemma connections_remove_absent:
  "connections w s = None \<Longrightarrow> connections (removeConnection w s u) = connections w"
  by (simp add: removeConnection_def)

lemma connections_remove_nomatch:
  "connections w s = Some cs \<Longrightarrow> \<forall>c\<in>set cs. UserID c \<noteq> u \<Longrightarrow>
   connections (removeConnection w s u) =
     (if cs = [] then (connections w)(s := None) else connections w)"
  using find_user_None[of u cs 0]
  by (auto simp: removeConnection_def Let_def split: option.splits)

lemma connections_remove_match:
  "connections w s = Some (pre @ c # post) \<Longrightarrow> \<forall>x\<in>set pre. UserID x \<noteq> u \<Longrightarrow> UserID c = u \<Longrightarrow>
   connections (removeConnection w s u) =
     (if pre @ post = [] then (connections w)(s := None) else (connections w)(s \<mapsto> pre @ post))"
  using find_user_first[of pre u c post 0]
  by (auto simp: removeConnection_def Let_def split: option.splits)

lemma removeConnection_other_fields:
  "redisClient (removeConnection w s u) = redisClient w \<and> tick (removeConnection w s u) = tick w
   \<and> trace (removeConnection w s u) = trace w @ [Removed s u]"
  by (auto simp: removeConnection_def Let_def split: option.splits)

lemma split_first_user:
  "\<exists>c\<in>set cs. UserID c = u \<Longrightarrow>
   \<exists>pre c post. cs = pre @ c # post \<and> UserID c = u \<and> (\<forall>x\<in>set pre. UserID x \<noteq> u)"
  using split_list_first_prop[of cs "\<lambda>c. UserID c = u"] by auto

text \<open>No reachable registry maps a session to the empty list.\<close>

lemma reachable_no_empty: "reachable w \<Longrightarrow> no_empty_session w"
proof (induction rule: reachable.induct)
  case (new store)
  then show ?case by (simp add: no_empty_session_def NewWSManager_def)
next
  case (add w sessionID conn)
  then show ?case by (auto simp: no_empty_session_def connections_add)
next
  case (remove w s u)
  show ?case unfolding no_empty_session_def
  proof
    fix s'
    show "connections (removeConnection w s u) s' \<noteq> Some []"
    proof (cases "connections w s")
      case None
      then show ?thesis
        using remove.IH by (simp add: connections_remove_absent no_empty_session_def)
    next
      case (Some cs)
      show ?thesis
      proof (cases "\<exists>c\<in>set cs. UserID c = u")
        case True
        then obtain pre c post where
          "cs = pre @ c # post" "UserID c = u" "\<forall>x\<in>set pre. UserID x \<noteq> u"
          using split_first_user by blast
        then show ?thesis
          using Some remove.IH connections_remove_match[of w s pre c post u]
          by (auto simp: no_empty_session_def)
      next
        case False
        then show ?thesis
          using Some remove.IH connections_remove_nomatch[of w s cs u]
          by (auto simp: no_empty_session_def)
      qed
    qed
  qed
next
  case (other w w')
  then show ?case by (simp add: no_empty_session_def)
qed

text \<open>
  Claim C6. In every state of the registry the program can reach,
  \<open>removeConnection w s u\<close> leaves the registry as it is when the session \<open>s\<close> is
  absent or holds no connection of the user \<open>u\<close>; otherwise it removes the first
  connection of \<open>u\<close> from the list of \<open>s\<close>, keeps the others in their order, deletes the
  key \<open>s\<close> when the list becomes empty, and changes no other session. The store is
  never touched.
\<close>

theorem removeConnection_first_match:
  assumes "reachable w"
  shows "(connections w s = None \<longrightarrow> connections (removeConnection w s u) = connections w)
       \<and> (\<forall>cs. connections w s = Some cs \<and> (\<forall>c\<in>set cs. UserID c \<noteq> u) \<longrightarrow>
            connections (removeConnection w s u) = connections w)
       \<and> (\<forall>pre c post. connections w s = Some (pre @ c # post)
             \<and> (\<forall>x\<in>set pre. UserID x \<noteq> u) \<and> UserID c = u \<longrightarrow>
            connections (removeConnection w s u) =
              (if pre @ post = [] then (connections w)(s := None)
               else (connections w)(s \<mapsto> pre @ post)))
       \<and> redisClient (removeConnection w s u) = redisClient w"
proof (intro conjI allI impI)
  assume "connections w s = None"
  then show "connections (removeConnection w s u) = connections w"
    by (rule connections_remove_absent)
next
  fix cs assume a: "connections w s = Some cs \<and> (\<forall>c\<in>set cs. UserID c \<noteq> u)"
  have "cs \<noteq> []"
    using reachable_no_empty[OF assms] a by (auto simp: no_empty_session_def)
  then show "connections (removeConnection w s u) = connections w"
    using a connections_remove_nomatch[of w s cs u] by simp
next
  fix pre c post
  assume "connections w s = Some (pre @ c # post)
            \<and> (\<forall>x\<in>set pre. UserID x \<noteq> u) \<and> UserID c = u"
  then show "connections (removeConnection w s u) =
              (if pre @ post = [] then (connections w)(s := None)
               else (connections w)(s \<mapsto> pre @ post))"
    using connections_remove_match[of w s pre c post u] by simp
next
  show "redisClient (removeConnection w s u) = redisClient w"
    by (simp add: removeConnection_other_fields)
qed

lemma three_tabs_connections:
  "connections three_tabs =
     [''s1'' \<mapsto> [tab 1 ''cust1'' ''customer'', tab 2 ''agent1'' ''agent'', tab 3 ''cust1'' ''customer'']]"
  by (simp add: three_tabs_def connections_add NewWSManager_def)

lemma three_tabs_reachable: "reachable three_tabs"
  unfolding three_tabs_def by (intro reachable.add reachable.new)

theorem removeConnection_first_match_witness:
  "reachable three_tabs
   \<and> connections (removeConnection three_tabs ''s2'' ''cust1'') = connections three_tabs
   \<and> connections (removeConnection three_tabs ''s1'' ''nobody'') = connections three_tabs
   \<and> connections (removeConnection three_tabs ''s1'' ''cust1'') =
       [''s1'' \<mapsto> [tab 2 ''agent1'' ''agent'', tab 3 ''cust1'' ''customer'']]
   \<and> connections (removeConnection
         (addConnection (NewWSManager empty_store) ''s1'' (tab 1 ''cust1'' ''customer''))
         ''s1'' ''cust1'') ''s1'' = None"
proof -
  have r: "reachable three_tabs" by (rule three_tabs_reachable)
  have 1: "connections (removeConnection three_tabs ''s2'' ''cust1'') = connections three_tabs"
    using removeConnection_first_match[OF r, of "''s2''" "''cust1''"]
    by (simp add: three_tabs_connections)
  have 2: "connections (removeConnection three_tabs ''s1'' ''nobody'') = connections three_tabs"
    using removeConnection_first_match[OF r, of "''s1''" "''nobody''"]
    by (simp add: three_tabs_connections tab_def)
  have 3: "connections (removeConnection three_tabs ''s1'' ''cust1'') =
       [''s1'' \<mapsto> [tab 2 ''agent1'' ''agent'', tab 3 ''cust1'' ''customer'']]"
    using removeConnection_first_match[OF r, THEN conjunct2, THEN conjunct2, THEN conjunct1,
      rule_format, where s = "''s1''" and u = "''cust1''" and pre = "[]"
      and c = "tab 1 ''cust1'' ''customer''"
      and post = "[tab 2 ''agent1'' ''agent'', tab 3 ''cust1'' ''customer'']"]
    by (simp add: three_tabs_connections tab_def)
  let ?one = "addConnection (NewWSManager empty_store) ''s1'' (tab 1 ''cust1'' ''customer'')"
  have r1: "reachable ?one" by (intro reachable.add reachable.new)
  have c1: "connections ?one = [''s1'' \<mapsto> [tab 1 ''cust1'' ''customer'']]"
    by (simp add: connections_add NewWSManager_def)
  have 4: "connections (removeConnection ?one ''s1'' ''cust1'') ''s1'' = None"
    using removeConnection_first_match[OF r1, THEN conjunct2, THEN conjunct2, THEN conjunct1,
      rule_format, where s = "''s1''" and u = "''cust1''" and pre = "[]"
      and c = "tab 1 ''cust1'' ''customer''" and post = "[]"]
    unfolding c1 by (simp add: tab_def)
  from r 1 2 3 4 show ?thesis by simp
qed

section \<open>The status computed from the entries of a session\<close>

lemma count_user_counts:
  "count_user e (res, cc, ac) = (res', cc', ac') \<Longrightarrow>
     cc' = cc + (if has_role ''customer'' e then 1 else 0) \<and>
     ac' = ac + (if has_role ''agent'' e then 1 else 0)"
  by (cases e) (auto simp: has_role_def Let_def split: option.splits jvalue.splits if_splits)

lemma fold_count_user_counts:
  "fold count_user users (res, cc, ac) = (res', cc', ac') \<Longrightarrow>
     cc' = cc + count_role ''customer'' users \<and> ac' = ac + count_role ''agent'' users"
proof (induction users arbitrary: res cc ac)
  case Nil
  then show ?case by (simp add: count_role_def)
next
  case (Cons e users)
  obtain r1 c1 a1 where s: "count_user e (res, cc, ac) = (r1, c1, a1)"
    by (metis prod_cases3)
  from Cons.prems s have "fold count_user users (r1, c1, a1) = (res', cc', ac')" by simp
  from Cons.IH[OF this] count_user_counts[OF s] show ?case by (auto simp: count_role_def)
qed

lemma count_user_result:
  "count_user e (res, cc, ac) = (res', cc', ac') \<Longrightarrow>
     res' = (case json_Unmarshal (snd e) of None \<Rightarrow> res | Some info \<Rightarrow> res(fst e \<mapsto> JObj info))"
  by (cases e) (auto simp: Let_def split: option.splits if_splits)

lemma fold_count_user_result_notin:
  "fold count_user users (res, cc, ac) = (res', cc', ac') \<Longrightarrow> u \<notin> fst ` set users \<Longrightarrow>
   res' u = res u"
proof (induction users arbitrary: res cc ac)
  case Nil
  then show ?case by simp
next
  case (Cons e users)
  obtain r1 c1 a1 where s: "count_user e (res, cc, ac) = (r1, c1, a1)"
    by (metis prod_cases3)
  from Cons.prems s have f: "fold count_user users (r1, c1, a1) = (res', cc', ac')" by simp
  have "r1 u = res u"
    using count_user_result[OF s] Cons.prems(2) by (auto split: option.splits)
  with Cons.IH[OF f] Cons.prems(2) show ?case by simp
qed

lemma fold_count_user_result_in:
  "fold count_user users (res, cc, ac) = (res', cc', ac') \<Longrightarrow> distinct (map fst users) \<Longrightarrow>
   (u, v) \<in> set users \<Longrightarrow> json_Unmarshal v = Some info \<Longrightarrow> res' u = Some (JObj info)"
proof (induction users arbitrary: res cc ac)
  case Nil
  then show ?case by simp
next
  case (Cons e users)
  obtain r1 c1 a1 where s: "count_user e (res, cc, ac) = (r1, c1, a1)"
    by (metis prod_cases3)
  from Cons.prems s have f: "fold count_user users (r1, c1, a1) = (res', cc', ac')" by simp
  show ?case
  proof (cases "e = (u, v)")
    case True
    then have "u \<notin> fst ` set users" using Cons.prems(2) by auto
    from fold_count_user_result_notin[OF f this] count_user_result[OF s] True Cons.prems(4)
    show ?thesis by simp
  next
    case False
    then have "(u, v) \<in> set users" using Cons.prems(3) by simp
    from Cons.IH[OF f _ this Cons.prems(4)] Cons.prems(2) show ?thesis by simp
  qed
qed

lemma session_status_fields:
  "\<exists>result. session_status users =
     [''users'' \<mapsto> JObj result,
      ''customer_connected'' \<mapsto> JBool (0 < count_role ''customer'' users),
      ''agent_connected'' \<mapsto> JBool (0 < count_role ''agent'' users),
      ''total_customer'' \<mapsto> JInt (count_role ''customer'' users),
      ''total_agent'' \<mapsto> JInt (count_role ''agent'' users)]
    \<and> (\<forall>u. u \<notin> fst ` set users \<longrightarrow> result u = None)
    \<and> (distinct (map fst users) \<longrightarrow>
         (\<forall>u v info. (u, v) \<in> set users \<and> json_Unmarshal v = Some info \<longrightarrow>
            result u = Some (JObj info)))"
proof -
  obtain r c a where f: "fold count_user users (Map.empty, 0, 0) = (r, c, a)"
    by (metis prod_cases3)
  from fold_count_user_counts[OF f]
  have ca: "c = count_role ''customer'' users" "a = count_role ''agent'' users" by auto
  have 1: "\<forall>u. u \<notin> fst ` set users \<longrightarrow> r u = None"
    using fold_count_user_result_notin[OF f] by simp
  have 2: "distinct (map fst users) \<longrightarrow>
      (\<forall>u v info. (u, v) \<in> set users \<and> json_Unmarshal v = Some info \<longrightarrow> r u = Some (JObj info))"
    using fold_count_user_result_in[OF f] by blast
  show ?thesis
    apply (rule exI[of _ r])
    using 1 2 by (simp add: session_status_def f ca)
qed

lemma fold_count_user_result_map:
  "fold count_user users (res, cc, ac) = (res', cc', ac') \<Longrightarrow> distinct (map fst users) \<Longrightarrow>
   res' u = (case map_of users u of
               None \<Rightarrow> res u
             | Some v \<Rightarrow> (case json_Unmarshal v of None \<Rightarrow> res u | Some info \<Rightarrow> Some (JObj info)))"
proof (induction users arbitrary: res cc ac)
  case Nil
  then show ?case by simp
next
  case (Cons e users)
  obtain r1 c1 a1 where s: "count_user e (res, cc, ac) = (r1, c1, a1)"
    by (metis prod_cases3)
  from Cons.prems s have f: "fold count_user users (r1, c1, a1) = (res', cc', ac')" by simp
  have d: "distinct (map fst users)" and n: "fst e \<notin> fst ` set users"
    using Cons.prems(2) by auto
  note ih = Cons.IH[OF f d]
  note r1 = count_user_result[OF s]
  show ?case
  proof (cases "fst e = u")
    case True
    then have "map_of users u = None" using n by (simp add: map_of_eq_None_iff)
    then show ?thesis using ih r1 True by (cases e) (auto split: option.splits)
  next
    case False
    then show ?thesis using ih r1 by (cases e) (auto split: option.splits)
  qed
qed

lemma count_role_card:
  "distinct (map fst users) \<Longrightarrow> count_role r users = int (card {e \<in> set users. has_role r e})"
proof -
  assume "distinct (map fst users)"
  then have "distinct users" by (rule distinct_map[THEN iffD1, THEN conjunct1])
  then have "length (filter (has_role r) users) = card ({e. has_role r e} \<inter> set users)"
    by (rule distinct_length_filter)
  moreover have "{e. has_role r e} \<inter> set users = {e \<in> set users. has_role r e}" by auto
  ultimately show ?thesis by (simp add: count_role_def)
qed

text \<open>
  Go ranges over the map HGETALL returns in no fixed order; the status does not depend
  on it.
\<close>

lemma session_status_order_irrelevant:
  assumes "distinct (map fst xs)" "distinct (map fst ys)" "set xs = set ys"
  shows "session_status xs = session_status ys"
proof -
  obtain rx cx ax where fx: "fold count_user xs (Map.empty, 0, 0) = (rx, cx, ax)"
    by (metis prod_cases3)
  obtain ry cy ay where fy: "fold count_user ys (Map.empty, 0, 0) = (ry, cy, ay)"
    by (metis prod_cases3)
  have m: "map_of xs = map_of ys"
    using assms by (simp add: map_of_inject_set)
  have "rx u = ry u" for u
    using fold_count_user_result_map[OF fx assms(1), of u]
      fold_count_user_result_map[OF fy assms(2), of u] m by simp
  then have r: "rx = ry" by (simp add: fun_eq_iff)
  have c: "cx = cy" "ax = ay"
    using fold_count_user_counts[OF fx] fold_count_user_counts[OF fy]
      count_role_card[OF assms(1)] count_role_card[OF assms(2)] assms(3)
    by simp_all
  show ?thesis by (simp add: session_status_def fx fy r c)
qed

section \<open>Traces of the store client and of a broadcast\<close>

lemma redis_call_eq:
  "redis_call env w cmd =
     (redis_fails env (tick w),
      w\<lparr>redisClient := (if redis_fails env (tick w) then redisClient w
                         else redis_apply (time_Now env (tick w)) cmd (redisClient w)),
        tick := Suc (tick w),
        trace := trace w @ [Redis cmd (redis_fails env (tick w))]\<rparr>)"
  by (simp add: redis_call_def Let_def)

lemma GetSessionUsers_eq:
  "GetSessionUsers env w sid =
     ((if redis_fails env (tick w) then None
       else Some (session_status (hashes (redisClient w) (users_key sid)))),
      w\<lparr>tick := Suc (tick w),
        trace := trace w @ [Redis (HGETALL (users_key sid)) (redis_fails env (tick w))]\<rparr>)"
  by (cases "redis_fails env (tick w)") (simp_all add: GetSessionUsers_def redis_call_eq Let_def)

lemma deliver_fields:
  "trace (deliver env t s m c w) = trace w @ delivery_events env t s m c
   \<and> redisClient (deliver env t s m c w) = redisClient w
   \<and> tick (deliver env t s m c w) = tick w"
  by (simp add: deliver_def delivery_events_def Let_def removeConnection_other_fields)

lemma fold_deliver_fields:
  "trace (fold (deliver env t s m) cs w) = trace w @ concat (map (delivery_events env t s m) cs)
   \<and> redisClient (fold (deliver env t s m) cs w) = redisClient w
   \<and> tick (fold (deliver env t s m) cs w) = tick w"
  by (induction cs arbitrary: w) (simp_all add: deliver_fields)

lemma broadcastToSession_fields:
  "trace (broadcastToSession env w s m) =
     trace w @ Broadcast s m # concat (map (delivery_events env (tick w) s m) (snapshot w s))
   \<and> redisClient (broadcastToSession env w s m) = redisClient w
   \<and> tick (broadcastToSession env w s m) = (if snapshot w s = [] then tick w else Suc (tick w))"
  by (simp add: broadcastToSession_def Let_def fold_deliver_fields snapshot_def)

lemma broadcasts_append: "broadcasts (xs @ ys) = broadcasts xs @ broadcasts ys"
  by (simp add: broadcasts_def)

lemma broadcasts_deliveries:
  "broadcasts (concat (map (delivery_events env t s m) cs)) = []"
  by (induction cs) (simp_all add: broadcasts_def delivery_events_def)

lemma new_events_append: "trace w' = trace w @ evs \<Longrightarrow> new_events w w' = evs"
  by (simp add: new_events_def)

section \<open>Snapshot of a session\<close>

lemma GetSessionUsers_status:
  assumes "\<not> redis_fails env (tick w)"
  shows "\<exists>st result. fst (GetSessionUsers env w sid) = Some st
     \<and> st ''users'' = Some (JObj result)
     \<and> st ''total_customer'' = Some (JInt (count_role ''customer'' (hashes (redisClient w) (users_key sid))))
     \<and> st ''total_agent'' = Some (JInt (count_role ''agent'' (hashes (redisClient w) (users_key sid))))
     \<and> st ''customer_connected'' = Some (JBool (0 < count_role ''customer'' (hashes (redisClient w) (users_key sid))))
     \<and> st ''agent_connected'' = Some (JBool (0 < count_role ''agent'' (hashes (redisClient w) (users_key sid))))
     \<and> (hashes (redisClient w) (users_key sid) = [] \<longrightarrow>
          st = [''users'' \<mapsto> JObj Map.empty,
                ''customer_connected'' \<mapsto> JBool False,
                ''agent_connected'' \<mapsto> JBool False,
                ''total_customer'' \<mapsto> JInt 0,
                ''total_agent'' \<mapsto> JInt 0])"
proof -
  let ?users = "hashes (redisClient w) (users_key sid)"
  obtain result where r:
    "session_status ?users =
       [''users'' \<mapsto> JObj result,
        ''customer_connected'' \<mapsto> JBool (0 < count_role ''customer'' ?users),
        ''agent_connected'' \<mapsto> JBool (0 < count_role ''agent'' ?users),
        ''total_customer'' \<mapsto> JInt (count_role ''customer'' ?users),
        ''total_agent'' \<mapsto> JInt (count_role ''agent'' ?users)]"
    using session_status_fields[of ?users] by blast
  have z: "session_status [] =
          [''users'' \<mapsto> JObj Map.empty,
           ''customer_connected'' \<mapsto> JBool False,
           ''agent_connected'' \<mapsto> JBool False,
           ''total_customer'' \<mapsto> JInt 0,
           ''total_agent'' \<mapsto> JInt 0]"
    by (simp add: session_status_def)
  have g: "fst (GetSessionUsers env w sid) = Some (session_status ?users)"
    using assms by (simp add: GetSessionUsers_eq)
  have f: "session_status ?users ''users'' = Some (JObj result)"
    "session_status ?users ''total_customer'' = Some (JInt (count_role ''customer'' ?users))"
    "session_status ?users ''total_agent'' = Some (JInt (count_role ''agent'' ?users))"
    "session_status ?users ''customer_connected'' = Some (JBool (0 < count_role ''customer'' ?users))"
    "session_status ?users ''agent_connected'' = Some (JBool (0 < count_role ''agent'' ?users))"
    by (simp_all add: r)
  show ?thesis
    apply (rule exI[of _ "session_status ?users"])
    apply (rule exI[of _ result])
    using g f z by simp
qed

text \<open>
  Claim C7. When the read of the session's hash succeeds, \<open>GetSessionUsers\<close> returns a
  status (never the error) whose \<^verbatim>\<open>total_customer\<close> and
  \<^verbatim>\<open>total_agent\<close> are the numbers of entries read with the role customer and
  agent, whose \<^verbatim>\<open>customer_connected\<close> and \<^verbatim>\<open>agent_connected\<close>
  say whether the respective number is positive, and which for a session with no
  entries is the zeroed status with an empty users map.
\<close>

theorem GetSessionUsers_counts:
  assumes "\<not> redis_fails env (tick w)"
  shows "\<exists>st result. fst (GetSessionUsers env w sid) = Some st
     \<and> st ''users'' = Some (JObj result)
     \<and> st ''total_customer'' = Some (JInt (count_role ''customer'' (hashes (redisClient w) (users_key sid))))
     \<and> st ''total_agent'' = Some (JInt (count_role ''agent'' (hashes (redisClient w) (users_key sid))))
     \<and> st ''customer_connected'' = Some (JBool (0 < count_role ''customer'' (hashes (redisClient w) (users_key sid))))
     \<and> st ''agent_connected'' = Some (JBool (0 < count_role ''agent'' (hashes (redisClient w) (users_key sid))))
     \<and> (hashes (redisClient w) (users_key sid) = [] \<longrightarrow>
          st = [''users'' \<mapsto> JObj Map.empty,
                ''customer_connected'' \<mapsto> JBool False,
                ''agent_connected'' \<mapsto> JBool False,
                ''total_customer'' \<mapsto> JInt 0,
                ''total_agent'' \<mapsto> JInt 0])"
  using GetSessionUsers_status[OF assms] .

theorem GetSessionUsers_counts_witness:
  "(\<exists>st. fst (GetSessionUsers calm
            (NewWSManager (store_of [(''cust1'', entry ''cust1'' ''customer'' 1),
                                      (''agent1'', entry ''agent1'' ''agent'' 2),
                                      (''cust2'', entry ''cust2'' ''customer'' 3)])) ''s1'') = Some st
     \<and> st ''total_customer'' = Some (JInt 2) \<and> st ''total_agent'' = Some (JInt 1)
     \<and> st ''customer_connected'' = Some (JBool True) \<and> st ''agent_connected'' = Some (JBool True))
   \<and> fst (GetSessionUsers calm (NewWSManager (store_of [])) ''s1'') =
       Some [''users'' \<mapsto> JObj Map.empty,
             ''customer_connected'' \<mapsto> JBool False,
             ''agent_connected'' \<mapsto> JBool False,
             ''total_customer'' \<mapsto> JInt 0,
             ''total_agent'' \<mapsto> JInt 0]"
  using GetSessionUsers_counts[of calm
      "NewWSManager (store_of [(''cust1'', entry ''cust1'' ''customer'' 1),
                                (''agent1'', entry ''agent1'' ''agent'' 2),
                                (''cust2'', entry ''cust2'' ''customer'' 3)])" "''s1''"]
    GetSessionUsers_counts[of calm "NewWSManager (store_of [])" "''s1''"]
  by (auto simp: calm_def NewWSManager_def store_of_def count_role_def has_role_def entry_def)

lemma count_role_Nil: "count_role r [] = 0"
  by (simp add: count_role_def)

lemma count_role_Cons:
  "count_role r (e # users) = (if has_role r e then 1 else 0) + count_role r users"
  by (simp add: count_role_def)

lemma others_Cons: "others u (e # users) = (if fst e \<noteq> u then e # others u users else others u users)"
  by (simp add: others_def)

lemma others_absent: "u \<notin> fst ` set users \<Longrightarrow> others u users = users"
  by (auto simp: others_def filter_id_conv)

lemma count_role_split:
  "distinct (map fst users) \<Longrightarrow> (u, v) \<in> set users \<Longrightarrow>
   count_role r users = (if has_role r (u, v) then 1 else 0) + count_role r (others u users)"
proof (induction users)
  case Nil
  then show ?case by simp
next
  case (Cons e users)
  show ?case
  proof (cases "e = (u, v)")
    case True
    then have "u \<notin> fst ` set users" using Cons.prems(1) by auto
    then have "others u users = users" by (rule others_absent)
    then show ?thesis using True by (simp add: count_role_Cons others_Cons)
  next
    case False
    then have m: "(u, v) \<in> set users" using Cons.prems(2) by simp
    then have ne: "fst e \<noteq> u" using Cons.prems(1) by (cases e) (auto simp: image_iff)
    have d: "distinct (map fst users)" using Cons.prems(1) by simp
    have "count_role r (e # users) = (if has_role r e then 1 else 0) + count_role r users"
      by (rule count_role_Cons)
    also have "count_role r users = (if has_role r (u, v) then 1 else 0) + count_role r (others u users)"
      by (rule Cons.IH[OF d m])
    finally show ?thesis using ne by (simp add: count_role_Cons others_Cons)
  qed
qed

text \<open>
  Claim C10. A user whose entry has a role that is neither customer nor agent is
  in the users map of the snapshot, and both totals are those of the other users'
  entries; when there is no other entry the users map is not empty and both
  presence flags are false.
\<close>

theorem other_roles_listed_not_counted:
  assumes "\<not> redis_fails env (tick w)"
    and "distinct (map fst (hashes (redisClient w) (users_key sid)))"
    and "(u, v) \<in> set (hashes (redisClient w) (users_key sid))"
    and "json_Unmarshal v = Some info"
    and "info ''user_type'' = Some (JStr role)"
    and "role \<noteq> ''customer''" and "role \<noteq> ''agent''"
  shows "\<exists>st result. fst (GetSessionUsers env w sid) = Some st
     \<and> st ''users'' = Some (JObj result) \<and> result u = Some (JObj info)
     \<and> st ''total_customer'' =
         Some (JInt (count_role ''customer'' (others u (hashes (redisClient w) (users_key sid)))))
     \<and> st ''total_agent'' =
         Some (JInt (count_role ''agent'' (others u (hashes (redisClient w) (users_key sid)))))
     \<and> (others u (hashes (redisClient w) (users_key sid)) = [] \<longrightarrow>
          st ''customer_connected'' = Some (JBool False) \<and> st ''agent_connected'' = Some (JBool False))"
proof -
  let ?users = "hashes (redisClient w) (users_key sid)"
  obtain result where r:
    "session_status ?users =
       [''users'' \<mapsto> JObj result,
        ''customer_connected'' \<mapsto> JBool (0 < count_role ''customer'' ?users),
        ''agent_connected'' \<mapsto> JBool (0 < count_role ''agent'' ?users),
        ''total_customer'' \<mapsto> JInt (count_role ''customer'' ?users),
        ''total_agent'' \<mapsto> JInt (count_role ''agent'' ?users)]"
    and i: "distinct (map fst ?users) \<longrightarrow>
         (\<forall>u v info. (u, v) \<in> set ?users \<and> json_Unmarshal v = Some info \<longrightarrow>
            result u = Some (JObj info))"
    using session_status_fields[of ?users] by blast
  have ru: "result u = Some (JObj info)" using i assms(2,3,4) by blast
  have nr: "\<not> has_role ''customer'' (u, v)" "\<not> has_role ''agent'' (u, v)"
    using assms(4,5,6,7) by (auto simp: has_role_def)
  have c: "count_role ''customer'' ?users = count_role ''customer'' (others u ?users)"
    "count_role ''agent'' ?users = count_role ''agent'' (others u ?users)"
    using count_role_split[OF assms(2,3)] nr by auto
  have g: "fst (GetSessionUsers env w sid) = Some (session_status ?users)"
    using assms(1) by (simp add: GetSessionUsers_eq)
  have f: "session_status ?users ''users'' = Some (JObj result)"
    "session_status ?users ''total_customer'' = Some (JInt (count_role ''customer'' (others u ?users)))"
    "session_status ?users ''total_agent'' = Some (JInt (count_role ''agent'' (others u ?users)))"
    "session_status ?users ''customer_connected'' = Some (JBool (0 < count_role ''customer'' (others u ?users)))"
    "session_status ?users ''agent_connected'' = Some (JBool (0 < count_role ''agent'' (others u ?users)))"
    by (simp_all add: r c)
  show ?thesis
    apply (rule exI[of _ "session_status ?users"])
    apply (rule exI[of _ result])
    using g ru f by (simp add: count_role_Nil)
qed

theorem other_roles_listed_not_counted_witness:
  "\<exists>st result. fst (GetSessionUsers calm
            (NewWSManager (store_of [(''admin_456'', entry ''admin_456'' ''admin'' 1)])) ''s1'') = Some st
     \<and> st ''users'' = Some (JObj result) \<and> result ''admin_456'' \<noteq> None
     \<and> st ''total_customer'' = Some (JInt 0) \<and> st ''total_agent'' = Some (JInt 0)
     \<and> st ''customer_connected'' = Some (JBool False) \<and> st ''agent_connected'' = Some (JBool False)"
  using other_roles_listed_not_counted[of calm
      "NewWSManager (store_of [(''admin_456'', entry ''admin_456'' ''admin'' 1)])" "''s1''"
      "''admin_456''" "entry ''admin_456'' ''admin'' 1"
      "[''user_id'' \<mapsto> JStr ''admin_456'', ''user_type'' \<mapsto> JStr ''admin'', ''joined_at'' \<mapsto> JTime 1]"
      "''admin''"]
  by (auto simp: calm_def NewWSManager_def store_of_def count_role_def has_role_def entry_def others_def)

section \<open>Joining a session\<close>

lemma AddUserToSession_eq:
  "AddUserToSession env w sid uid ut =
     redis_call env w (HSET (users_key sid) uid (entry uid ut (time_Now env (tick w))))"
  by (simp add: AddUserToSession_def Let_def entry_def json_Marshal_def)

lemma AddUserToSession_hashes:
  "hashes (redisClient (snd (AddUserToSession env w sid uid ut))) k =
     (if \<not> redis_fails env (tick w) \<and> k = users_key sid
      then AList.update uid (entry uid ut (time_Now env (tick w))) (hashes (redisClient w) k)
      else hashes (redisClient w) k)"
  by (simp add: AddUserToSession_eq redis_call_eq)

lemma AddUserToSession_tick: "tick (snd (AddUserToSession env w sid uid ut)) = Suc (tick w)"
  by (simp add: AddUserToSession_eq redis_call_eq)

lemma AddUserToSession_one_entry:
  "one_entry_per_user (redisClient w) \<Longrightarrow>
   one_entry_per_user (redisClient (snd (AddUserToSession env w sid uid ut)))"
  by (simp add: one_entry_per_user_def AddUserToSession_hashes distinct_update)

lemma joins_one_entry:
  "one_entry_per_user (redisClient w) \<Longrightarrow> one_entry_per_user (redisClient (joins env js w))"
proof (induction js arbitrary: w)
  case Nil
  then show ?case by (simp add: joins_def)
next
  case (Cons j js)
  obtain sid uid ut where j: "j = (sid, uid, ut)" by (metis prod_cases3)
  have "joins env (j # js) w = joins env js (snd (AddUserToSession env w sid uid ut))"
    by (simp add: joins_def j)
  then show ?case using Cons.IH[OF AddUserToSession_one_entry[OF Cons.prems]] by simp
qed

lemma has_role_entry: "has_role r (u, entry uid ut t) \<longleftrightarrow> r = ut"
  by (auto simp: has_role_def entry_def)

lemma others_update: "others u (AList.update u v al) = others u al"
  by (induction al) (auto simp: others_def)

lemma update_member: "(u, v) \<in> set (AList.update u v al)"
  by (induction al) auto

lemma filter_update_one:
  "distinct (map fst al) \<Longrightarrow> filter (\<lambda>e. fst e = u) (AList.update u v al) = [(u, v)]"
proof (induction al)
  case Nil
  then show ?case by simp
next
  case (Cons e al)
  show ?case
  proof (cases "fst e = u")
    case True
    then have "u \<notin> fst ` set al" using Cons.prems by auto
    then have "filter (\<lambda>e. fst e = u) al = []" by (auto simp: filter_empty_conv)
    then show ?thesis using True by simp
  next
    case False
    then show ?thesis using Cons by simp
  qed
qed

lemma count_role_update:
  assumes "distinct (map fst al)"
  shows "count_role r (AList.update u (entry uid ut t) al) =
           (if r = ut then 1 else 0) + count_role r (others u al)"
  using count_role_split[OF distinct_update[OF assms] update_member,
      where u = u and v = "entry uid ut t" and r = r]
  by (simp add: has_role_entry others_update)

text \<open>
  Claim C8. Starting from a store with at most one entry per session and user, every
  sequence of joins leaves at most one entry per session and user, whichever of its
  writes fail. When a user is joined twice and both writes succeed, the users
  present are those after the first join, the user has exactly one entry, and a
  snapshot read afterwards lists the user and counts it once, under the role of the
  second join.
\<close>

theorem join_twice_one_entry:
  assumes "one_entry_per_user (redisClient w)"
  shows "one_entry_per_user (redisClient (joins env js w))
     \<and> (\<not> redis_fails env (tick w) \<and> \<not> redis_fails env (Suc (tick w))
          \<and> \<not> redis_fails env (Suc (Suc (tick w))) \<longrightarrow>
        (\<exists>st result.
           map fst (hashes (redisClient (joins env [(sid, uid, ut0), (sid, uid, ut)] w)) (users_key sid))
             = map fst (hashes (redisClient (joins env [(sid, uid, ut0)] w)) (users_key sid))
         \<and> length (filter (\<lambda>e. fst e = uid)
              (hashes (redisClient (joins env [(sid, uid, ut0), (sid, uid, ut)] w)) (users_key sid))) = 1
         \<and> fst (GetSessionUsers env (joins env [(sid, uid, ut0), (sid, uid, ut)] w) sid) = Some st
         \<and> st ''users'' = Some (JObj result) \<and> result uid \<noteq> None
         \<and> st ''total_customer'' =
             Some (JInt ((if ut = ''customer'' then 1 else 0)
                    + count_role ''customer'' (others uid (hashes (redisClient w) (users_key sid)))))
         \<and> st ''total_agent'' =
             Some (JInt ((if ut = ''agent'' then 1 else 0)
                    + count_role ''agent'' (others uid (hashes (redisClient w) (users_key sid)))))))"
proof (intro conjI impI)
  show "one_entry_per_user (redisClient (joins env js w))"
    by (rule joins_one_entry[OF assms])
next
  assume ok: "\<not> redis_fails env (tick w) \<and> \<not> redis_fails env (Suc (tick w))
          \<and> \<not> redis_fails env (Suc (Suc (tick w)))"
  let ?k = "users_key sid"
  let ?h = "hashes (redisClient w) ?k"
  let ?w1 = "joins env [(sid, uid, ut0)] w"
  let ?w2 = "joins env [(sid, uid, ut0), (sid, uid, ut)] w"
  have d: "distinct (map fst ?h)" using assms by (simp add: one_entry_per_user_def)
  have h1: "hashes (redisClient ?w1) ?k = AList.update uid (entry uid ut0 (time_Now env (tick w))) ?h"
    using ok by (simp add: joins_def AddUserToSession_hashes)
  have h2: "hashes (redisClient ?w2) ?k = AList.update uid (entry uid ut (time_Now env (Suc (tick w)))) ?h"
    using ok by (simp add: joins_def AddUserToSession_hashes AddUserToSession_tick)
  have t2: "tick ?w2 = Suc (Suc (tick w))"
    by (simp add: joins_def AddUserToSession_tick)
  have keys: "map fst (hashes (redisClient ?w2) ?k) = map fst (hashes (redisClient ?w1) ?k)"
    by (simp add: h1 h2 update_keys)
  have one: "length (filter (\<lambda>e. fst e = uid) (hashes (redisClient ?w2) ?k)) = 1"
    by (simp add: h2 filter_update_one[OF d])
  have d2: "distinct (map fst (hashes (redisClient ?w2) ?k))"
    by (simp add: h2 distinct_update[OF d])
  have m2: "(uid, entry uid ut (time_Now env (Suc (tick w)))) \<in> set (hashes (redisClient ?w2) ?k)"
    by (simp add: h2 update_member)
  obtain st result where
    g: "fst (GetSessionUsers env ?w2 sid) = Some st"
    and u: "st ''users'' = Some (JObj result)"
    and c: "st ''total_customer'' = Some (JInt (count_role ''customer'' (hashes (redisClient ?w2) ?k)))"
    and a: "st ''total_agent'' = Some (JInt (count_role ''agent'' (hashes (redisClient ?w2) ?k)))"
    using GetSessionUsers_status[of env ?w2 sid] ok t2 by auto
  obtain result' where
    "session_status (hashes (redisClient ?w2) ?k) ''users'' = Some (JObj result')"
    and i: "\<forall>u v info. (u, v) \<in> set (hashes (redisClient ?w2) ?k) \<and> json_Unmarshal v = Some info \<longrightarrow>
            result' u = Some (JObj info)"
    using session_status_fields[of "hashes (redisClient ?w2) ?k"] d2 by auto
  moreover have "st = session_status (hashes (redisClient ?w2) ?k)"
    using g ok t2 by (simp add: GetSessionUsers_eq)
  ultimately have "result' = result" using u by simp
  moreover have "\<exists>info. json_Unmarshal (entry uid ut (time_Now env (Suc (tick w)))) = Some info"
    by (simp add: entry_def)
  then have "result' uid \<noteq> None"
    using i m2 by fastforce
  ultimately have r: "result uid \<noteq> None" by simp
  show "\<exists>st result.
           map fst (hashes (redisClient ?w2) ?k) = map fst (hashes (redisClient ?w1) ?k)
         \<and> length (filter (\<lambda>e. fst e = uid) (hashes (redisClient ?w2) ?k)) = 1
         \<and> fst (GetSessionUsers env ?w2 sid) = Some st
         \<and> st ''users'' = Some (JObj result) \<and> result uid \<noteq> None
         \<and> st ''total_customer'' =
             Some (JInt ((if ut = ''customer'' then 1 else 0) + count_role ''customer'' (others uid ?h)))
         \<and> st ''total_agent'' =
             Some (JInt ((if ut = ''agent'' then 1 else 0) + count_role ''agent'' (others uid ?h)))"
    apply (rule exI[of _ st])
    apply (rule exI[of _ result])
    using keys one g u r c a by (simp add: h2 count_role_update[OF d])
qed

lemma one_entry_empty: "one_entry_per_user (store_of [])"
  by (simp add: one_entry_per_user_def store_of_def)

theorem join_twice_one_entry_witness:
  "one_entry_per_user (redisClient (NewWSManager (store_of [])))
   \<and> one_entry_per_user (redisClient
        (joins calm [(''s1'', ''cust1'', ''customer''), (''s1'', ''agent1'', ''agent''),
                     (''s1'', ''cust1'', ''customer'')] (NewWSManager (store_of []))))
   \<and> (\<exists>st. map fst (hashes (redisClient
          (joins calm [(''s1'', ''cust1'', ''customer''), (''s1'', ''cust1'', ''customer'')]
             (NewWSManager (store_of [])))) (users_key ''s1'')) = [''cust1'']
        \<and> fst (GetSessionUsers calm
          (joins calm [(''s1'', ''cust1'', ''customer''), (''s1'', ''cust1'', ''customer'')]
             (NewWSManager (store_of []))) ''s1'') = Some st
        \<and> st ''total_customer'' = Some (JInt 1) \<and> st ''total_agent'' = Some (JInt 0))"
proof -
  have p: "one_entry_per_user (redisClient (NewWSManager (store_of [])))"
    by (simp add: NewWSManager_def one_entry_empty)
  have k: "map fst (hashes (redisClient
          (joins calm [(''s1'', ''cust1'', ''customer'')]
             (NewWSManager (store_of [])))) (users_key ''s1'')) = [''cust1'']"
    by (simp add: joins_def AddUserToSession_hashes NewWSManager_def store_of_def calm_def)
  show ?thesis
    using p join_twice_one_entry[OF p, where env = calm
        and js = "[(''s1'', ''cust1'', ''customer''), (''s1'', ''agent1'', ''agent''),
                   (''s1'', ''cust1'', ''customer'')]"
        and sid = "''s1''" and uid = "''cust1''" and ?ut0.0 = "''customer''"
        and ut = "''customer''"] k
    by (auto simp: calm_def NewWSManager_def store_of_def others_def count_role_Nil)
qed

section \<open>Inbound messages\<close>

lemma safeWriteToConn_eq:
  "snd (safeWriteToConn env w c m) =
     w\<lparr>tick := Suc (tick w), trace := trace w @ [Write c m (WriteJSON env (tick w) c)]\<rparr>"
  by (simp add: safeWriteToConn_def Let_def)

text \<open>
  Claim C9. For an inbound message whose type is none of
  \<^verbatim>\<open>join_session\<close>, \<^verbatim>\<open>typing_start\<close>, \<^verbatim>\<open>typing_stop\<close>,
  \<^verbatim>\<open>agent_typing\<close>, \<^verbatim>\<open>send_message\<close> and \<^verbatim>\<open>ping\<close>, the
  handler does one thing: it writes one frame of type \<^verbatim>\<open>error\<close> to the
  sender's socket. It makes no broadcast, leaves the registry and the store as they
  are, closes nothing, and the read loop goes on with the next frame (also when the
  write of the error frame fails).
\<close>

theorem unknown_type_one_error_frame:
  assumes "MsgType msg \<notin> {''join_session'', ''typing_start'', ''typing_stop'', ''agent_typing'',
                            ''send_message'', ''ping''}"
  shows "\<exists>m. new_events w (handleIncomingMessage env w c msg sid uid ut)
                = [Write c m (WriteJSON env (tick w) c)]
       \<and> Type m = ''error'' \<and> \<not> Success m
       \<and> Error m = ''Unknown message type: '' @ MsgType msg
       \<and> broadcasts (new_events w (handleIncomingMessage env w c msg sid uid ut)) = []
       \<and> connections (handleIncomingMessage env w c msg sid uid ut) = connections w
       \<and> redisClient (handleIncomingMessage env w c msg sid uid ut) = redisClient w
       \<and> read_loop env c sid uid ut (msg # frames) w =
           read_loop env c sid uid ut frames
             (w\<lparr>tick := Suc (tick w),
                trace := trace w @ [Write c m (WriteJSON env (tick w) c)]\<rparr>)"
proof -
  let ?m = "\<lparr>Type = ''error'', Success = False, Data = JNull,
             Error = ''Unknown message type: '' @ MsgType msg\<rparr>"
  have h: "handleIncomingMessage env w c msg sid uid ut =
        w\<lparr>tick := Suc (tick w), trace := trace w @ [Write c ?m (WriteJSON env (tick w) c)]\<rparr>"
    using assms
    by (simp add: handleIncomingMessage_def sendErrorResponse_def safeWriteToConn_eq Let_def)
  show ?thesis
    apply (rule exI[of _ ?m])
    by (simp add: h new_events_def broadcasts_def)
qed

theorem unknown_type_one_error_frame_witness:
  "\<exists>m. new_events three_tabs
          (handleIncomingMessage calm three_tabs 1 (frame ''dance'' JNull) ''s1'' ''cust1'' ''customer'')
            = [Write 1 m Written]
       \<and> Type m = ''error'' \<and> Error m = ''Unknown message type: dance''
       \<and> broadcasts (new_events three_tabs
          (handleIncomingMessage calm three_tabs 1 (frame ''dance'' JNull) ''s1'' ''cust1'' ''customer'')) = []
       \<and> connections (handleIncomingMessage calm three_tabs 1 (frame ''dance'' JNull) ''s1'' ''cust1'' ''customer'')
           = connections three_tabs"
  using unknown_type_one_error_frame[of "frame ''dance'' JNull" three_tabs calm 1 "''s1''" "''cust1''" "''customer''"]
  by (auto simp: frame_def calm_def)

lemma isTyping_of_eq: "isTyping_of d = (field d ''is_typing'' \<noteq> Some (JBool False))"
  by (auto simp: isTyping_of_def field_def split: jvalue.splits option.splits)

lemma SetUserTyping_eq:
  "snd (SetUserTyping env w sid uid b) =
     w\<lparr>redisClient :=
         (if redis_fails env (tick w) then redisClient w
          else if b then (redisClient w)\<lparr>strings := (strings (redisClient w))
                          (typing_key sid uid \<mapsto> (''true'', time_Now env (tick w) + 30))\<rparr>
          else (redisClient w)\<lparr>strings := (strings (redisClient w))(typing_key sid uid := None)\<rparr>),
       tick := Suc (tick w),
       trace := trace w @ [Redis (if b then SET (typing_key sid uid) ''true'' 30
                                  else DEL (typing_key sid uid)) (redis_fails env (tick w))]\<rparr>"
  by (simp add: SetUserTyping_def redis_call_eq Let_def)

lemma handleTypingIndicator_effects:
  "\<exists>m. broadcasts (new_events w (handleTypingIndicator env w sid uid ut b)) = [(sid, m)]
     \<and> Type m = ''typing_indicator''
     \<and> field (Data m) ''user_id'' = Some (JStr uid)
     \<and> field (Data m) ''is_typing'' = Some (JBool b)
     \<and> field (Data m) ''session_id'' = Some (JStr sid)
     \<and> (\<forall>c\<in>set (snapshot w sid).
           Write (Conn c) m (WriteJSON env (Suc (tick w)) (Conn c))
             \<in> set (new_events w (handleTypingIndicator env w sid uid ut b)))
     \<and> redisClient (handleTypingIndicator env w sid uid ut b) =
         redisClient (snd (SetUserTyping env w sid uid b))"
  by (auto simp: handleTypingIndicator_def Let_def SetUserTyping_eq broadcastToSession_fields
      SendMessage_def new_events_def broadcasts_append broadcasts_deliveries broadcasts_def
      field_def snapshot_def delivery_events_def)

lemma handleIncoming_typing_start:
  "MsgType msg = ''typing_start'' \<Longrightarrow>
   handleIncomingMessage env w c msg sid uid ut =
     handleTypingIndicator env w sid uid ut (isTyping_of (MsgData msg))"
  by (simp add: handleIncomingMessage_def)

lemma handleIncoming_typing_stop:
  "MsgType msg = ''typing_stop'' \<Longrightarrow>
   handleIncomingMessage env w c msg sid uid ut = handleTypingIndicator env w sid uid ut False"
  by (simp add: handleIncomingMessage_def)

text \<open>
  Claim C5, as amended. A \<^verbatim>\<open>typing_start\<close> from the user \<open>uid\<close> makes one
  broadcast to the session, of a \<^verbatim>\<open>typing_indicator\<close> with that user's id,
  written to every registered connection; its \<^verbatim>\<open>is_typing\<close> is true unless
  the data of the message is a map whose \<^verbatim>\<open>is_typing\<close> is the boolean false,
  and then it is false. When it is true and the store accepts the write, the typing
  flag of the user is there for 30 seconds and gone from then on. A
  \<^verbatim>\<open>typing_stop\<close> makes one broadcast with \<^verbatim>\<open>is_typing\<close> false,
  and when the store accepts the delete the flag is absent.
\<close>

theorem typing_round_trip:
  "(MsgType msg = ''typing_start'' \<longrightarrow>
      (\<exists>m. broadcasts (new_events w (handleIncomingMessage env w c msg sid uid ut)) = [(sid, m)]
         \<and> Type m = ''typing_indicator''
         \<and> field (Data m) ''user_id'' = Some (JStr uid)
         \<and> field (Data m) ''is_typing'' =
             Some (JBool (field (MsgData msg) ''is_typing'' \<noteq> Some (JBool False)))
         \<and> (\<forall>x\<in>set (snapshot w sid).
               Write (Conn x) m (WriteJSON env (Suc (tick w)) (Conn x))
                 \<in> set (new_events w (handleIncomingMessage env w c msg sid uid ut))))
      \<and> (field (MsgData msg) ''is_typing'' \<noteq> Some (JBool False) \<and> \<not> redis_fails env (tick w) \<longrightarrow>
           (\<forall>t. string_get (redisClient (handleIncomingMessage env w c msg sid uid ut)) t
                  (typing_key sid uid) =
                (if t < time_Now env (tick w) + 30 then Some ''true'' else None))))
   \<and> (MsgType msg = ''typing_stop'' \<longrightarrow>
      (\<exists>m. broadcasts (new_events w (handleIncomingMessage env w c msg sid uid ut)) = [(sid, m)]
         \<and> Type m = ''typing_indicator''
         \<and> field (Data m) ''user_id'' = Some (JStr uid)
         \<and> field (Data m) ''is_typing'' = Some (JBool False)
         \<and> (\<forall>x\<in>set (snapshot w sid).
               Write (Conn x) m (WriteJSON env (Suc (tick w)) (Conn x))
                 \<in> set (new_events w (handleIncomingMessage env w c msg sid uid ut))))
      \<and> (\<not> redis_fails env (tick w) \<longrightarrow>
           (\<forall>t. string_get (redisClient (handleIncomingMessage env w c msg sid uid ut)) t
                  (typing_key sid uid) = None)))"
proof (intro conjI impI)
  assume s: "MsgType msg = ''typing_start''"
  show "\<exists>m. broadcasts (new_events w (handleIncomingMessage env w c msg sid uid ut)) = [(sid, m)]
         \<and> Type m = ''typing_indicator''
         \<and> field (Data m) ''user_id'' = Some (JStr uid)
         \<and> field (Data m) ''is_typing'' =
             Some (JBool (field (MsgData msg) ''is_typing'' \<noteq> Some (JBool False)))
         \<and> (\<forall>x\<in>set (snapshot w sid).
               Write (Conn x) m (WriteJSON env (Suc (tick w)) (Conn x))
                 \<in> set (new_events w (handleIncomingMessage env w c msg sid uid ut)))"
    using handleTypingIndicator_effects[of w env sid uid ut "isTyping_of (MsgData msg)"]
    by (auto simp: handleIncoming_typing_start[OF s] isTyping_of_eq)
next
  assume s: "MsgType msg = ''typing_start''"
    and t: "field (MsgData msg) ''is_typing'' \<noteq> Some (JBool False) \<and> \<not> redis_fails env (tick w)"
  have "redisClient (handleIncomingMessage env w c msg sid uid ut) =
          redisClient (snd (SetUserTyping env w sid uid True))"
    using handleTypingIndicator_effects[of w env sid uid ut True] t
    by (auto simp: handleIncoming_typing_start[OF s] isTyping_of_eq)
  then show "\<forall>t. string_get (redisClient (handleIncomingMessage env w c msg sid uid ut)) t
                  (typing_key sid uid) =
                (if t < time_Now env (tick w) + 30 then Some ''true'' else None)"
    using t by (simp add: SetUserTyping_eq string_get_def)
next
  assume s: "MsgType msg = ''typing_stop''"
  show "\<exists>m. broadcasts (new_events w (handleIncomingMessage env w c msg sid uid ut)) = [(sid, m)]
         \<and> Type m = ''typing_indicator''
         \<and> field (Data m) ''user_id'' = Some (JStr uid)
         \<and> field (Data m) ''is_typing'' = Some (JBool False)
         \<and> (\<forall>x\<in>set (snapshot w sid).
               Write (Conn x) m (WriteJSON env (Suc (tick w)) (Conn x))
                 \<in> set (new_events w (handleIncomingMessage env w c msg sid uid ut)))"
    using handleTypingIndicator_effects[of w env sid uid ut False]
    by (auto simp: handleIncoming_typing_stop[OF s])
next
  assume s: "MsgType msg = ''typing_stop''" and t: "\<not> redis_fails env (tick w)"
  have "redisClient (handleIncomingMessage env w c msg sid uid ut) =
          redisClient (snd (SetUserTyping env w sid uid False))"
    using handleTypingIndicator_effects[of w env sid uid ut False]
    by (auto simp: handleIncoming_typing_stop[OF s])
  then show "\<forall>t. string_get (redisClient (handleIncomingMessage env w c msg sid uid ut)) t
                  (typing_key sid uid) = None"
    using t by (simp add: SetUserTyping_eq string_get_def)
qed

lemma three_tabs_fields:
  "tick three_tabs = 0 \<and> redisClient three_tabs = empty_store"
  by (simp add: three_tabs_def addConnection_def NewWSManager_def Let_def)

lemma three_tabs_snapshot:
  "snapshot three_tabs ''s1'' =
     [tab 1 ''cust1'' ''customer'', tab 2 ''agent1'' ''agent'', tab 3 ''cust1'' ''customer'']"
  by (simp add: snapshot_def three_tabs_connections)

lemma broadcasts_Nil: "broadcasts [] = []"
  by (simp add: broadcasts_def)

lemma broadcasts_Cons: "broadcasts (e # es) = broadcast_of e @ broadcasts es"
  by (simp add: broadcasts_def)

lemma field_JNull: "field JNull k = None"
  by (simp add: field_def)

theorem typing_round_trip_witness:
  "(\<exists>m. broadcasts (new_events three_tabs
            (handleIncomingMessage calm three_tabs 1 (frame ''typing_start'' JNull)
               ''s1'' ''cust1'' ''customer'')) = [(''s1'', m)]
       \<and> field (Data m) ''user_id'' = Some (JStr ''cust1'')
       \<and> field (Data m) ''is_typing'' = Some (JBool True)
       \<and> Write 2 m Written \<in> set (new_events three_tabs
            (handleIncomingMessage calm three_tabs 1 (frame ''typing_start'' JNull)
               ''s1'' ''cust1'' ''customer'')))
   \<and> string_get (redisClient (handleIncomingMessage calm three_tabs 1 (frame ''typing_start'' JNull)
               ''s1'' ''cust1'' ''customer'')) 129 (typing_key ''s1'' ''cust1'') = Some ''true''
   \<and> string_get (redisClient (handleIncomingMessage calm three_tabs 1 (frame ''typing_start'' JNull)
               ''s1'' ''cust1'' ''customer'')) 130 (typing_key ''s1'' ''cust1'') = None
   \<and> (\<exists>m. broadcasts (new_events three_tabs
            (handleIncomingMessage calm three_tabs 1 (frame ''typing_stop'' JNull)
               ''s1'' ''cust1'' ''customer'')) = [(''s1'', m)]
       \<and> field (Data m) ''is_typing'' = Some (JBool False))
   \<and> string_get (redisClient (handleIncomingMessage calm three_tabs 1 (frame ''typing_stop'' JNull)
               ''s1'' ''cust1'' ''customer'')) 101 (typing_key ''s1'' ''cust1'') = None"
  using typing_round_trip[of "frame ''typing_start'' JNull" three_tabs calm 1 "''s1''" "''cust1''" "''customer''"]
    typing_round_trip[of "frame ''typing_stop'' JNull" three_tabs calm 1 "''s1''" "''cust1''" "''customer''"]
  by (auto simp: frame_def calm_def three_tabs_fields three_tabs_snapshot field_JNull tab_def)

text \<open>
  The claim as stated fails: a \<^verbatim>\<open>typing_start\<close> whose data says
  \<^verbatim>\<open>is_typing: false\<close> is broadcast with \<^verbatim>\<open>is_typing\<close> false.
\<close>

theorem typing_start_false_counterexample:
  "map typing_summary
     (broadcasts (new_events three_tabs
        (handleIncomingMessage calm three_tabs 1
           (frame ''typing_start'' (JObj [''is_typing'' \<mapsto> JBool False]))
           ''s1'' ''cust1'' ''customer'')))
   = [(''s1'', ''typing_indicator'', Some (JStr ''cust1''), Some (JBool False))]"
  by (simp add: handleIncomingMessage_def frame_def isTyping_of_def handleTypingIndicator_def
      Let_def SetUserTyping_eq broadcastToSession_fields SendMessage_def new_events_def
      broadcasts_append broadcasts_deliveries broadcasts_Nil broadcasts_Cons field_def calm_def
      typing_summary_def)

section \<open>Leaving a session\<close>

lemma redis_commands_append: "redis_commands (xs @ ys) = redis_commands xs @ redis_commands ys"
  by (simp add: redis_commands_def)

lemma redis_commands_Nil: "redis_commands [] = []"
  by (simp add: redis_commands_def)

lemma redis_commands_Cons: "redis_commands (e # es) = redis_command_of e @ redis_commands es"
  by (simp add: redis_commands_def)

lemma redis_commands_deliveries:
  "redis_commands (concat (map (delivery_events env t s m) cs)) = []"
  by (induction cs) (simp_all add: redis_commands_def delivery_events_def)

lemma RemoveUserFromSession_eq:
  "snd (RemoveUserFromSession env w sid uid ut) =
     w\<lparr>redisClient :=
         (if redis_fails env (tick w) then redisClient w
          else (redisClient w)\<lparr>hashes := (hashes (redisClient w))
                 (users_key sid := AList.delete uid (hashes (redisClient w) (users_key sid)))\<rparr>),
       tick := Suc (tick w),
       trace := trace w @ [Redis (HDEL (users_key sid) uid) (redis_fails env (tick w))]\<rparr>"
  by (simp add: RemoveUserFromSession_def redis_call_eq Let_def)

lemma removeConnection_connections_cong:
  "connections w = connections w' \<Longrightarrow>
   connections (removeConnection w s u) = connections (removeConnection w' s u)"
  by (auto simp: removeConnection_def Let_def split: option.splits)

lemma snapshot_cong: "connections w = connections w' \<Longrightarrow> snapshot w s = snapshot w' s"
  by (simp add: snapshot_def)

lemma status_broadcast_failed:
  "redis_fails env (tick w) \<Longrightarrow>
   new_events w (broadcastConnectionStatusWithContext env w sid et eu) =
     [Redis (HGETALL (users_key sid)) True]
   \<and> connections (broadcastConnectionStatusWithContext env w sid et eu) = connections w"
  by (simp add: broadcastConnectionStatusWithContext_def GetSessionUsers_eq new_events_def)

lemma status_broadcast_events:
  "\<not> redis_fails env (tick w) \<Longrightarrow>
   \<exists>m pub.
     new_events w (broadcastConnectionStatusWithContext env w sid et eu) =
       Redis (HGETALL (users_key sid)) False # Broadcast sid m
         # concat (map (delivery_events env (Suc (tick w)) sid m) (snapshot w sid)) @ pub
   \<and> broadcasts pub = [] \<and> redis_commands pub = []
   \<and> Type m = ''connection_status_update''
   \<and> field (Data m) ''connection_status'' =
        Some (JObj (session_status (hashes (redisClient w) (users_key sid))))
   \<and> field (Data m) ''session_id'' = Some (JStr sid)
   \<and> field (Data m) ''event_type'' = (if et = '''' then None else Some (JStr et))
   \<and> field (Data m) ''event_user_id'' = (if eu = '''' then None else Some (JStr eu))"
  by (auto simp: broadcastConnectionStatusWithContext_def GetSessionUsers_eq Let_def
      broadcastToSession_fields SendMessage_def field_def new_events_def
      broadcasts_Nil broadcasts_Cons redis_commands_Nil redis_commands_Cons snapshot_def)

lemma run_deferred_eq:
  "run_deferred env w c sid uid ut =
     (let w2 = removeConnection (snd (RemoveUserFromSession env w sid uid ut)) sid uid;
          w3 = broadcastConnectionStatusWithContext env w2 sid ''user_disconnected'' uid
      in w3\<lparr>trace := trace w3 @ [Closed c]\<rparr>)"
  by (simp add: run_deferred_def Let_def)

lemma trace_extends_bcs:
  "\<exists>evs. trace (broadcastConnectionStatusWithContext env w sid et eu) = trace w @ evs"
  by (auto simp: broadcastConnectionStatusWithContext_def GetSessionUsers_eq Let_def
      broadcastToSession_fields SendMessage_def)

lemma new_events_bcs:
  "trace (broadcastConnectionStatusWithContext env w sid et eu) =
     trace w @ new_events w (broadcastConnectionStatusWithContext env w sid et eu)"
  using trace_extends_bcs[of env w sid et eu] by (auto simp: new_events_def)

lemma run_deferred_events:
  "new_events w (run_deferred env w c sid uid ut) =
     Redis (HDEL (users_key sid) uid) (redis_fails env (tick w)) # Removed sid uid
       # new_events (removeConnection (snd (RemoveUserFromSession env w sid uid ut)) sid uid)
           (broadcastConnectionStatusWithContext env
              (removeConnection (snd (RemoveUserFromSession env w sid uid ut)) sid uid)
              sid ''user_disconnected'' uid)
       @ [Closed c]"
proof -
  let ?w2 = "removeConnection (snd (RemoveUserFromSession env w sid uid ut)) sid uid"
  let ?w3 = "broadcastConnectionStatusWithContext env ?w2 sid ''user_disconnected'' uid"
  have t2: "trace ?w2 = trace w @ [Redis (HDEL (users_key sid) uid) (redis_fails env (tick w)), Removed sid uid]"
    by (simp add: removeConnection_other_fields RemoveUserFromSession_eq)
  have "trace (run_deferred env w c sid uid ut) = trace ?w3 @ [Closed c]"
    by (simp add: run_deferred_eq Let_def)
  also have "trace ?w3 = trace ?w2 @ new_events ?w2 ?w3" by (rule new_events_bcs)
  finally show ?thesis by (simp add: t2 new_events_def)
qed

lemma delete_others: "AList.delete u users = others u users"
  by (induction users) (auto simp: others_def)

lemma others_keys: "u \<notin> fst ` set (others u users)"
  by (auto simp: others_def)

lemma run_deferred_trace:
  "\<exists>rest. new_events w (run_deferred env w c sid uid ut) =
       [Redis (HDEL (users_key sid) uid) (redis_fails env (tick w)), Removed sid uid,
        Redis (HGETALL (users_key sid)) (redis_fails env (Suc (tick w)))] @ rest @ [Closed c]
     \<and> redis_commands rest = []
     \<and> (redis_fails env (Suc (tick w)) \<longrightarrow> rest = [])
     \<and> (\<not> redis_fails env (Suc (tick w)) \<longrightarrow>
         (\<exists>m pub. rest = Broadcast sid m
                 # concat (map (delivery_events env (Suc (Suc (tick w))) sid m)
                             (snapshot (removeConnection w sid uid) sid)) @ pub
            \<and> broadcasts pub = []
            \<and> Type m = ''connection_status_update''
            \<and> field (Data m) ''event_type'' = Some (JStr ''user_disconnected'')
            \<and> field (Data m) ''event_user_id'' = (if uid = '''' then None else Some (JStr uid))
            \<and> field (Data m) ''connection_status'' =
                Some (JObj (session_status (hashes
                   (redisClient (snd (RemoveUserFromSession env w sid uid ut))) (users_key sid))))))"
proof -
  let ?w1 = "snd (RemoveUserFromSession env w sid uid ut)"
  let ?w2 = "removeConnection ?w1 sid uid"
  let ?w3 = "broadcastConnectionStatusWithContext env ?w2 sid ''user_disconnected'' uid"
  have t2: "tick ?w2 = Suc (tick w)"
    by (simp add: removeConnection_other_fields RemoveUserFromSession_eq)
  have r2: "redisClient ?w2 = redisClient ?w1"
    by (simp add: removeConnection_other_fields)
  have "connections ?w1 = connections w" by (simp add: RemoveUserFromSession_eq)
  then have s2: "snapshot ?w2 sid = snapshot (removeConnection w sid uid) sid"
    by (intro snapshot_cong removeConnection_connections_cong)
  note ev = run_deferred_events[of w env c sid uid ut]
  show ?thesis
  proof (cases "redis_fails env (Suc (tick w))")
    case True
    then have "new_events ?w2 ?w3 = [Redis (HGETALL (users_key sid)) True]"
      using status_broadcast_failed[of env ?w2 sid "''user_disconnected''" uid] t2 by simp
    then show ?thesis using True ev
      by (intro exI[of _ "[]"]) (simp add: redis_commands_Nil)
  next
    case False
    then obtain m pub where
      e: "new_events ?w2 ?w3 =
           Redis (HGETALL (users_key sid)) False # Broadcast sid m
             # concat (map (delivery_events env (Suc (Suc (tick w))) sid m)
                         (snapshot (removeConnection w sid uid) sid)) @ pub"
      and p: "broadcasts pub = []" "redis_commands pub = []"
      and m: "Type m = ''connection_status_update''"
        "field (Data m) ''connection_status'' =
           Some (JObj (session_status (hashes (redisClient ?w1) (users_key sid))))"
        "field (Data m) ''event_type'' = Some (JStr ''user_disconnected'')"
        "field (Data m) ''event_user_id'' = (if uid = '''' then None else Some (JStr uid))"
      using status_broadcast_events[of env ?w2 sid "''user_disconnected''" uid] t2 r2 s2
      by auto
    let ?rest = "Broadcast sid m
             # concat (map (delivery_events env (Suc (Suc (tick w))) sid m)
                         (snapshot (removeConnection w sid uid) sid)) @ pub"
    have "redis_commands ?rest = []"
      by (simp add: redis_commands_Cons redis_commands_append redis_commands_deliveries p)
    then show ?thesis using False ev e p m
      by (intro exI[of _ ?rest]) auto
  qed
qed

lemma two_present_eq:
  "two_present =
     \<lparr>connections = [''s1'' \<mapsto> [tab 1 ''cust1'' ''customer'', tab 2 ''agent1'' ''agent'']],
      redisClient = store_of [(''cust1'', entry ''cust1'' ''customer'' 100),
                              (''agent1'', entry ''agent1'' ''agent'' 101)],
      tick = 2,
      trace = [Added ''s1'' (tab 1 ''cust1'' ''customer''), Added ''s1'' (tab 2 ''agent1'' ''agent''),
               Redis (HSET (users_key ''s1'') ''cust1'' (entry ''cust1'' ''customer'' 100)) False,
               Redis (HSET (users_key ''s1'') ''agent1'' (entry ''agent1'' ''agent'' 101)) False]\<rparr>"
  by (simp add: two_present_def joins_def AddUserToSession_eq redis_call_eq addConnection_def
      NewWSManager_def Let_def calm_def store_of_def fun_eq_iff)

lemma status_field_of:
  "field (Data m) ''connection_status'' = Some (JObj st) \<Longrightarrow> status_field m k = st k"
  by (simp add: status_field_def field_def)

lemma lists_user_of:
  "field (Data m) ''connection_status'' = Some (JObj st) \<Longrightarrow> st ''users'' = Some (JObj result) \<Longrightarrow>
   lists_user m u = (result u \<noteq> None)"
  by (simp add: lists_user_def status_field_def field_def)

lemma run_deferred_broadcasts:
  "(redis_fails env (Suc (tick w)) \<longrightarrow>
      broadcasts (new_events w (run_deferred env w c sid uid ut)) = [])
   \<and> (\<not> redis_fails env (Suc (tick w)) \<longrightarrow>
      (\<exists>m. broadcasts (new_events w (run_deferred env w c sid uid ut)) = [(sid, m)]
          \<and> Type m = ''connection_status_update''
          \<and> field (Data m) ''event_type'' = Some (JStr ''user_disconnected'')
          \<and> field (Data m) ''event_user_id'' = (if uid = '''' then None else Some (JStr uid))
          \<and> field (Data m) ''connection_status'' =
               Some (JObj (session_status
                  (if redis_fails env (tick w) then hashes (redisClient w) (users_key sid)
                   else others uid (hashes (redisClient w) (users_key sid)))))))"
proof -
  obtain rest where
    ev: "new_events w (run_deferred env w c sid uid ut) =
       [Redis (HDEL (users_key sid) uid) (redis_fails env (tick w)), Removed sid uid,
        Redis (HGETALL (users_key sid)) (redis_fails env (Suc (tick w)))] @ rest @ [Closed c]"
    and f: "redis_fails env (Suc (tick w)) \<longrightarrow> rest = []"
    and s: "\<not> redis_fails env (Suc (tick w)) \<longrightarrow>
         (\<exists>m pub. rest = Broadcast sid m
                 # concat (map (delivery_events env (Suc (Suc (tick w))) sid m)
                             (snapshot (removeConnection w sid uid) sid)) @ pub
            \<and> broadcasts pub = []
            \<and> Type m = ''connection_status_update''
            \<and> field (Data m) ''event_type'' = Some (JStr ''user_disconnected'')
            \<and> field (Data m) ''event_user_id'' = (if uid = '''' then None else Some (JStr uid))
            \<and> field (Data m) ''connection_status'' =
                Some (JObj (session_status (hashes
                   (redisClient (snd (RemoveUserFromSession env w sid uid ut))) (users_key sid)))))"
    using run_deferred_trace[of w env c sid uid ut] by blast
  have h: "hashes (redisClient (snd (RemoveUserFromSession env w sid uid ut))) (users_key sid) =
             (if redis_fails env (tick w) then hashes (redisClient w) (users_key sid)
              else others uid (hashes (redisClient w) (users_key sid)))"
    by (simp add: RemoveUserFromSession_eq delete_others)
  show ?thesis
  proof (cases "redis_fails env (Suc (tick w))")
    case True
    then show ?thesis using ev f by (simp add: broadcasts_Nil broadcasts_Cons)
  next
    case False
    then obtain m pub where
      r: "rest = Broadcast sid m
                 # concat (map (delivery_events env (Suc (Suc (tick w))) sid m)
                             (snapshot (removeConnection w sid uid) sid)) @ pub"
      and p: "broadcasts pub = []"
      and m: "Type m = ''connection_status_update''"
        "field (Data m) ''event_type'' = Some (JStr ''user_disconnected'')"
        "field (Data m) ''event_user_id'' = (if uid = '''' then None else Some (JStr uid))"
        "field (Data m) ''connection_status'' =
                Some (JObj (session_status (hashes
                   (redisClient (snd (RemoveUserFromSession env w sid uid ut))) (users_key sid))))"
      using s by blast
    have b: "broadcasts (new_events w (run_deferred env w c sid uid ut)) = [(sid, m)]"
      using ev r p
      by (simp add: broadcasts_Nil broadcasts_Cons broadcasts_append broadcasts_deliveries)
    show ?thesis using False b m h by auto
  qed
qed

text \<open>
  Claim C1, as amended. When the removal of the user's entry from the store succeeds
  on disconnect, the status is read from the store after that removal and after the
  registry removal: either the read fails and nothing is broadcast, or exactly one
  \<^verbatim>\<open>connection_status_update\<close> is broadcast, whose users map does not list
  the departing user and whose totals and flags are those of the other users'
  entries.
\<close>

theorem disconnect_broadcast_after_leave:
  assumes "\<not> redis_fails env (tick w)"
  shows "(redis_fails env (Suc (tick w))
           \<and> broadcasts (new_events w (run_deferred env w c sid uid ut)) = [])
       \<or> (\<exists>m evs.
             new_events w (run_deferred env w c sid uid ut) =
               Redis (HDEL (users_key sid) uid) False # Removed sid uid
                 # Redis (HGETALL (users_key sid)) False # Broadcast sid m # evs
           \<and> broadcasts (new_events w (run_deferred env w c sid uid ut)) = [(sid, m)]
           \<and> Type m = ''connection_status_update''
           \<and> field (Data m) ''event_type'' = Some (JStr ''user_disconnected'')
           \<and> \<not> lists_user m uid
           \<and> status_field m ''total_customer'' =
               Some (JInt (count_role ''customer'' (others uid (hashes (redisClient w) (users_key sid)))))
           \<and> status_field m ''total_agent'' =
               Some (JInt (count_role ''agent'' (others uid (hashes (redisClient w) (users_key sid)))))
           \<and> status_field m ''customer_connected'' =
               Some (JBool (0 < count_role ''customer'' (others uid (hashes (redisClient w) (users_key sid)))))
           \<and> status_field m ''agent_connected'' =
               Some (JBool (0 < count_role ''agent'' (others uid (hashes (redisClient w) (users_key sid))))))"
proof -
  let ?o = "others uid (hashes (redisClient w) (users_key sid))"
  obtain rest where
    ev: "new_events w (run_deferred env w c sid uid ut) =
       [Redis (HDEL (users_key sid) uid) (redis_fails env (tick w)), Removed sid uid,
        Redis (HGETALL (users_key sid)) (redis_fails env (Suc (tick w)))] @ rest @ [Closed c]"
    and f: "redis_fails env (Suc (tick w)) \<longrightarrow> rest = []"
    and s: "\<not> redis_fails env (Suc (tick w)) \<longrightarrow>
         (\<exists>m pub. rest = Broadcast sid m
                 # concat (map (delivery_events env (Suc (Suc (tick w))) sid m)
                             (snapshot (removeConnection w sid uid) sid)) @ pub
            \<and> broadcasts pub = []
            \<and> Type m = ''connection_status_update''
            \<and> field (Data m) ''event_type'' = Some (JStr ''user_disconnected'')
            \<and> field (Data m) ''event_user_id'' = (if uid = '''' then None else Some (JStr uid))
            \<and> field (Data m) ''connection_status'' =
                Some (JObj (session_status (hashes
                   (redisClient (snd (RemoveUserFromSession env w sid uid ut))) (users_key sid)))))"
    using run_deferred_trace[of w env c sid uid ut] by blast
  show ?thesis
  proof (cases "redis_fails env (Suc (tick w))")
    case True
    then show ?thesis using ev f by (simp add: broadcasts_Nil broadcasts_Cons)
  next
    case False
    then obtain m pub where
      r: "rest = Broadcast sid m
                 # concat (map (delivery_events env (Suc (Suc (tick w))) sid m)
                             (snapshot (removeConnection w sid uid) sid)) @ pub"
      and p: "broadcasts pub = []"
      and m: "Type m = ''connection_status_update''"
        "field (Data m) ''event_type'' = Some (JStr ''user_disconnected'')"
      and st: "field (Data m) ''connection_status'' =
                Some (JObj (session_status (hashes
                   (redisClient (snd (RemoveUserFromSession env w sid uid ut))) (users_key sid))))"
      using s by blast
    have h: "hashes (redisClient (snd (RemoveUserFromSession env w sid uid ut))) (users_key sid) = ?o"
      using assms by (simp add: RemoveUserFromSession_eq delete_others)
    obtain result where
      ss: "session_status ?o =
         [''users'' \<mapsto> JObj result,
          ''customer_connected'' \<mapsto> JBool (0 < count_role ''customer'' ?o),
          ''agent_connected'' \<mapsto> JBool (0 < count_role ''agent'' ?o),
          ''total_customer'' \<mapsto> JInt (count_role ''customer'' ?o),
          ''total_agent'' \<mapsto> JInt (count_role ''agent'' ?o)]"
      and n: "\<forall>u. u \<notin> fst ` set ?o \<longrightarrow> result u = None"
      using session_status_fields[of ?o] by blast
    have ru: "result uid = None" using n others_keys[of uid] by blast
    have st': "field (Data m) ''connection_status'' = Some (JObj (session_status ?o))"
      using st h by simp
    have l: "\<not> lists_user m uid"
      using lists_user_of[OF st', of result uid] ru by (simp add: ss)
    have b: "broadcasts (new_events w (run_deferred env w c sid uid ut)) = [(sid, m)]"
      using ev r p False assms
      by (simp add: broadcasts_Nil broadcasts_Cons broadcasts_append broadcasts_deliveries)
    have e: "new_events w (run_deferred env w c sid uid ut) =
               Redis (HDEL (users_key sid) uid) False # Removed sid uid
                 # Redis (HGETALL (users_key sid)) False # Broadcast sid m
                 # (concat (map (delivery_events env (Suc (Suc (tick w))) sid m)
                             (snapshot (removeConnection w sid uid) sid)) @ pub @ [Closed c])"
      using ev r False assms by simp
    show ?thesis
      apply (rule disjI2)
      apply (rule exI[of _ m])
      apply (rule exI[of _ "concat (map (delivery_events env (Suc (Suc (tick w))) sid m)
                             (snapshot (removeConnection w sid uid) sid)) @ pub @ [Closed c]"])
      using e b m l by (simp add: status_field_of[OF st'] ss)
  qed
qed

lemma two_present_hash:
  "hashes (redisClient two_present) (users_key ''s1'') =
     [(''cust1'', entry ''cust1'' ''customer'' 100), (''agent1'', entry ''agent1'' ''agent'' 101)]"
  by (simp add: two_present_eq store_of_def)

theorem disconnect_broadcast_after_leave_witness:
  "\<exists>m evs. new_events two_present (run_deferred calm two_present 1 ''s1'' ''cust1'' ''customer'') =
               Redis (HDEL (users_key ''s1'') ''cust1'') False # Removed ''s1'' ''cust1''
                 # Redis (HGETALL (users_key ''s1'')) False # Broadcast ''s1'' m # evs
         \<and> \<not> lists_user m ''cust1''
         \<and> status_field m ''total_customer'' = Some (JInt 0)
         \<and> status_field m ''total_agent'' = Some (JInt 1)
         \<and> status_field m ''customer_connected'' = Some (JBool False)
         \<and> status_field m ''agent_connected'' = Some (JBool True)"
proof -
  have t: "tick two_present = 2" by (simp add: two_present_eq)
  have o: "others ''cust1'' (hashes (redisClient two_present) (users_key ''s1'')) =
             [(''agent1'', entry ''agent1'' ''agent'' 101)]"
    by (simp add: two_present_hash others_def)
  have c: "count_role ''customer'' [(''agent1'', entry ''agent1'' ''agent'' 101)] = 0"
    "count_role ''agent'' [(''agent1'', entry ''agent1'' ''agent'' 101)] = 1"
    by (simp_all add: count_role_def has_role_entry)
  show ?thesis
    using disconnect_broadcast_after_leave[of calm two_present 1 "''s1''" "''cust1''" "''customer''"]
    by (auto simp: t o c calm_def)
qed

text \<open>
  The claim as stated fails when the removal from the store returns an error and the
  read that follows succeeds: the broadcast still lists and counts the departing user.
\<close>

theorem disconnect_stale_counterexample:
  "map (status_summary ''cust1'')
     (broadcasts (new_events two_present
        (run_deferred leave_fails two_present 1 ''s1'' ''cust1'' ''customer'')))
   = [(''s1'', Some (JInt 1), Some (JBool True), True)]"
proof -
  have t: "tick two_present = 2" by (simp add: two_present_eq)
  obtain m where
    b: "broadcasts (new_events two_present
          (run_deferred leave_fails two_present 1 ''s1'' ''cust1'' ''customer'')) = [(''s1'', m)]"
    and st: "field (Data m) ''connection_status'' =
        Some (JObj (session_status (hashes (redisClient two_present) (users_key ''s1''))))"
    using run_deferred_broadcasts[of leave_fails two_present 1 "''s1''" "''cust1''" "''customer''"]
    by (auto simp: t leave_fails_def calm_def)
  let ?h = "hashes (redisClient two_present) (users_key ''s1'')"
  have c: "session_status ?h ''total_customer'' = Some (JInt 1)"
    "session_status ?h ''customer_connected'' = Some (JBool True)"
    by (simp_all add: two_present_hash session_status_def entry_def)
  obtain result where u: "session_status ?h ''users'' = Some (JObj result)"
    and r: "result ''cust1'' \<noteq> None"
    by (simp add: two_present_hash session_status_def entry_def)
  have "status_summary ''cust1'' (''s1'', m) = (''s1'', Some (JInt 1), Some (JBool True), True)"
    by (simp add: status_summary_def status_field_of[OF st] lists_user_of[OF st u] c r)
  then show ?thesis using b by simp
qed

lemma run_deferred_steps:
  "\<exists>rest. new_events w (run_deferred env w c sid uid ut) =
       [Redis (HDEL (users_key sid) uid) (redis_fails env (tick w)), Removed sid uid,
        Redis (HGETALL (users_key sid)) (redis_fails env (Suc (tick w)))] @ rest @ [Closed c]
     \<and> redis_commands (new_events w (run_deferred env w c sid uid ut)) =
         [HDEL (users_key sid) uid, HGETALL (users_key sid)]
     \<and> (redis_fails env (Suc (tick w)) \<longrightarrow> rest = [])
     \<and> (\<not> redis_fails env (Suc (tick w)) \<longrightarrow>
         (\<exists>m pub. rest = Broadcast sid m
                 # concat (map (delivery_events env (Suc (Suc (tick w))) sid m)
                             (snapshot (removeConnection w sid uid) sid)) @ pub
            \<and> broadcasts pub = []
            \<and> broadcasts (new_events w (run_deferred env w c sid uid ut)) = [(sid, m)]
            \<and> Type m = ''connection_status_update''
            \<and> field (Data m) ''event_type'' = Some (JStr ''user_disconnected'')
            \<and> field (Data m) ''event_user_id'' = (if uid = '''' then None else Some (JStr uid))))"
proof -
  obtain rest where
    ev: "new_events w (run_deferred env w c sid uid ut) =
       [Redis (HDEL (users_key sid) uid) (redis_fails env (tick w)), Removed sid uid,
        Redis (HGETALL (users_key sid)) (redis_fails env (Suc (tick w)))] @ rest @ [Closed c]"
    and rc: "redis_commands rest = []"
    and f: "redis_fails env (Suc (tick w)) \<longrightarrow> rest = []"
    and s: "\<not> redis_fails env (Suc (tick w)) \<longrightarrow>
         (\<exists>m pub. rest = Broadcast sid m
                 # concat (map (delivery_events env (Suc (Suc (tick w))) sid m)
                             (snapshot (removeConnection w sid uid) sid)) @ pub
            \<and> broadcasts pub = []
            \<and> Type m = ''connection_status_update''
            \<and> field (Data m) ''event_type'' = Some (JStr ''user_disconnected'')
            \<and> field (Data m) ''event_user_id'' = (if uid = '''' then None else Some (JStr uid))
            \<and> field (Data m) ''connection_status'' =
                Some (JObj (session_status (hashes
                   (redisClient (snd (RemoveUserFromSession env w sid uid ut))) (users_key sid)))))"
    using run_deferred_trace[of w env c sid uid ut] by blast
  have c: "redis_commands (new_events w (run_deferred env w c sid uid ut)) =
         [HDEL (users_key sid) uid, HGETALL (users_key sid)]"
    using ev rc by (simp add: redis_commands_Cons redis_commands_append redis_commands_Nil)
  have b: "\<not> redis_fails env (Suc (tick w)) \<longrightarrow>
         (\<exists>m pub. rest = Broadcast sid m
                 # concat (map (delivery_events env (Suc (Suc (tick w))) sid m)
                             (snapshot (removeConnection w sid uid) sid)) @ pub
            \<and> broadcasts pub = []
            \<and> broadcasts (new_events w (run_deferred env w c sid uid ut)) = [(sid, m)]
            \<and> Type m = ''connection_status_update''
            \<and> field (Data m) ''event_type'' = Some (JStr ''user_disconnected'')
            \<and> field (Data m) ''event_user_id'' = (if uid = '''' then None else Some (JStr uid)))"
  proof
    assume "\<not> redis_fails env (Suc (tick w))"
    then obtain m pub where
      r: "rest = Broadcast sid m
                 # concat (map (delivery_events env (Suc (Suc (tick w))) sid m)
                             (snapshot (removeConnection w sid uid) sid)) @ pub"
      and p: "broadcasts pub = []"
      and m: "Type m = ''connection_status_update''"
        "field (Data m) ''event_type'' = Some (JStr ''user_disconnected'')"
        "field (Data m) ''event_user_id'' = (if uid = '''' then None else Some (JStr uid))"
      using s by blast
    have "broadcasts (new_events w (run_deferred env w c sid uid ut)) = [(sid, m)]"
      using ev r p
      by (simp add: broadcasts_Nil broadcasts_Cons broadcasts_append broadcasts_deliveries)
    then show "\<exists>m pub. rest = Broadcast sid m
                 # concat (map (delivery_events env (Suc (Suc (tick w))) sid m)
                             (snapshot (removeConnection w sid uid) sid)) @ pub
            \<and> broadcasts pub = []
            \<and> broadcasts (new_events w (run_deferred env w c sid uid ut)) = [(sid, m)]
            \<and> Type m = ''connection_status_update''
            \<and> field (Data m) ''event_type'' = Some (JStr ''user_disconnected'')
            \<and> field (Data m) ''event_user_id'' = (if uid = '''' then None else Some (JStr uid))"
      using r p m by blast
  qed
  show ?thesis using ev c f b by blast
qed

lemma HandleConnection_closing:
  "uuid_Parse env sid \<Longrightarrow>
   HandleConnection env w0 c sid uid ut frames =
     run_deferred env (read_loop env c sid uid ut frames (enter_active env w0 c sid uid ut))
       c sid uid ut"
  by (simp add: HandleConnection_def Let_def)

lemma HandleConnection_rejected:
  "\<not> uuid_Parse env sid \<Longrightarrow>
   \<exists>m. new_events w0 (HandleConnection env w0 c sid uid ut frames) =
         [Write c m (WriteJSON env (tick w0) c), Closed c]
      \<and> Type m = ''error''
      \<and> connections (HandleConnection env w0 c sid uid ut frames) = connections w0
      \<and> redisClient (HandleConnection env w0 c sid uid ut frames) = redisClient w0"
  by (simp add: HandleConnection_def Let_def sendErrorResponse_def safeWriteToConn_eq new_events_def)

text \<open>
  Claim C2, as amended. A connection that reached the read loop leaves it through the
  deferred calls of \<open>HandleConnection\<close>, and there the closing steps run once each, in
  this order: the removal of the user's entry from the store, the
  removal from the registry, the read of the session's entries; when that read
  succeeds, one broadcast of the status follows, with the event type
  \<^verbatim>\<open>user_disconnected\<close> and the id of the departing user (no
  \<^verbatim>\<open>event_user_id\<close> when the id is the empty string), delivered to the
  connections still registered; then the socket is closed. No other command goes to
  the store.
\<close>

theorem closing_steps_in_order:
  "(uuid_Parse env sid \<longrightarrow>
      HandleConnection env w0 c sid uid ut frames =
        run_deferred env (read_loop env c sid uid ut frames (enter_active env w0 c sid uid ut))
          c sid uid ut)
   \<and> (\<exists>rest. new_events w (run_deferred env w c sid uid ut) =
       [Redis (HDEL (users_key sid) uid) (redis_fails env (tick w)), Removed sid uid,
        Redis (HGETALL (users_key sid)) (redis_fails env (Suc (tick w)))] @ rest @ [Closed c]
     \<and> redis_commands (new_events w (run_deferred env w c sid uid ut)) =
         [HDEL (users_key sid) uid, HGETALL (users_key sid)]
     \<and> (redis_fails env (Suc (tick w)) \<longrightarrow> rest = [])
     \<and> (\<not> redis_fails env (Suc (tick w)) \<longrightarrow>
         (\<exists>m pub. rest = Broadcast sid m
                 # concat (map (delivery_events env (Suc (Suc (tick w))) sid m)
                             (snapshot (removeConnection w sid uid) sid)) @ pub
            \<and> broadcasts pub = []
            \<and> broadcasts (new_events w (run_deferred env w c sid uid ut)) = [(sid, m)]
            \<and> Type m = ''connection_status_update''
            \<and> field (Data m) ''event_type'' = Some (JStr ''user_disconnected'')
            \<and> field (Data m) ''event_user_id'' = (if uid = '''' then None else Some (JStr uid)))))"
  using HandleConnection_closing[of env sid w0 c uid ut frames]
    run_deferred_steps[of w env c sid uid ut]
  by blast

theorem closing_steps_in_order_witness:
  "HandleConnection calm two_present 4 ''s1'' ''agent2'' ''agent'' [frame ''ping'' JNull] =
     run_deferred calm
       (read_loop calm 4 ''s1'' ''agent2'' ''agent'' [frame ''ping'' JNull]
          (enter_active calm two_present 4 ''s1'' ''agent2'' ''agent''))
       4 ''s1'' ''agent2'' ''agent''
   \<and> (\<exists>rest. new_events two_present (run_deferred calm two_present 1 ''s1'' ''cust1'' ''customer'') =
       [Redis (HDEL (users_key ''s1'') ''cust1'') False, Removed ''s1'' ''cust1'',
        Redis (HGETALL (users_key ''s1'')) False] @ rest @ [Closed 1]
     \<and> redis_commands (new_events two_present
          (run_deferred calm two_present 1 ''s1'' ''cust1'' ''customer'')) =
         [HDEL (users_key ''s1'') ''cust1'', HGETALL (users_key ''s1'')]
     \<and> (\<exists>m pub. rest = Broadcast ''s1'' m # Write 2 m Written # pub
            \<and> field (Data m) ''event_type'' = Some (JStr ''user_disconnected'')
            \<and> field (Data m) ''event_user_id'' = Some (JStr ''cust1'')))
   \<and> new_events two_present (run_deferred read_fails two_present 1 ''s1'' ''cust1'' ''customer'') =
       [Redis (HDEL (users_key ''s1'') ''cust1'') False, Removed ''s1'' ''cust1'',
        Redis (HGETALL (users_key ''s1'')) True, Closed 1]"
proof -
  have s: "snapshot (removeConnection two_present ''s1'' ''cust1'') ''s1'' = [tab 2 ''agent1'' ''agent'']"
    by (simp add: two_present_eq snapshot_def removeConnection_def tab_def Let_def)
  have t: "tick two_present = 2" by (simp add: two_present_eq)
  have 1: "HandleConnection calm two_present 4 ''s1'' ''agent2'' ''agent'' [frame ''ping'' JNull] =
     run_deferred calm
       (read_loop calm 4 ''s1'' ''agent2'' ''agent'' [frame ''ping'' JNull]
          (enter_active calm two_present 4 ''s1'' ''agent2'' ''agent''))
       4 ''s1'' ''agent2'' ''agent''"
    using closing_steps_in_order[where env = calm and sid = "''s1''"
        and ?w0.0 = two_present and c = 4 and uid = "''agent2''" and ut = "''agent''"
        and frames = "[frame ''ping'' JNull]", THEN conjunct1]
    by (simp add: calm_def)
  have 2: "\<exists>rest. new_events two_present (run_deferred calm two_present 1 ''s1'' ''cust1'' ''customer'') =
       [Redis (HDEL (users_key ''s1'') ''cust1'') False, Removed ''s1'' ''cust1'',
        Redis (HGETALL (users_key ''s1'')) False] @ rest @ [Closed 1]
     \<and> redis_commands (new_events two_present
          (run_deferred calm two_present 1 ''s1'' ''cust1'' ''customer'')) =
         [HDEL (users_key ''s1'') ''cust1'', HGETALL (users_key ''s1'')]
     \<and> (\<exists>m pub. rest = Broadcast ''s1'' m # Write 2 m Written # pub
            \<and> field (Data m) ''event_type'' = Some (JStr ''user_disconnected'')
            \<and> field (Data m) ''event_user_id'' = Some (JStr ''cust1''))"
    using closing_steps_in_order[where env = calm and w = two_present and c = 1
        and sid = "''s1''" and uid = "''cust1''" and ut = "''customer''", THEN conjunct2]
    by (auto simp: s t calm_def delivery_events_def tab_def)
  have 3: "new_events two_present (run_deferred read_fails two_present 1 ''s1'' ''cust1'' ''customer'') =
       [Redis (HDEL (users_key ''s1'') ''cust1'') False, Removed ''s1'' ''cust1'',
        Redis (HGETALL (users_key ''s1'')) True, Closed 1]"
    using closing_steps_in_order[where env = read_fails and w = two_present
        and c = 1 and sid = "''s1''" and uid = "''cust1''" and ut = "''customer''", THEN conjunct2]
    by (auto simp: t read_fails_def calm_def)
  show ?thesis using 1 2 3 by blast
qed

text \<open>
  The order of the claim as stated (registry first, store second) is not the order of
  the code: the first closing step is the removal from the store.
\<close>

theorem closing_registry_first_counterexample:
  "take 2 (new_events two_present (run_deferred calm two_present 1 ''s1'' ''cust1'' ''customer'')) =
     [Redis (HDEL (users_key ''s1'') ''cust1'') False, Removed ''s1'' ''cust1'']"
  by (simp add: run_deferred_events calm_def two_present_eq)

section \<open>Broadcast isolation and pruning\<close>

text \<open>
  Every connection of the snapshot is written to, whatever the writes to the others
  do.
\<close>

lemma broadcast_writes_to_all:
  "c \<in> set (snapshot w s) \<Longrightarrow>
   Write (Conn c) m (WriteJSON env (tick w) (Conn c)) \<in> set (new_events w (broadcastToSession env w s m))"
  by (auto simp: new_events_def broadcastToSession_fields delivery_events_def)

lemma connections_deliver_fails:
  assumes "connections w s = Some (pre @ c # post)" "\<forall>x\<in>set pre. UserID x \<noteq> UserID c"
    "\<not> delivered env t c"
  shows "connections (deliver env t s m c w) =
     (if pre @ post = [] then (connections w)(s := None) else (connections w)(s \<mapsto> pre @ post))"
proof -
  let ?w' = "w\<lparr>trace := trace w @ [Write (Conn c) m (WriteJSON env t (Conn c))]\<rparr>"
  have "connections ?w' s = Some (pre @ c # post)" using assms(1) by simp
  from connections_remove_match[OF this assms(2)] assms(3)
  show ?thesis by (simp add: deliver_def delivered_def Let_def)
qed

lemma connections_deliver_ok:
  "delivered env t c \<Longrightarrow> connections (deliver env t s m c w) = connections w"
  by (simp add: deliver_def delivered_def Let_def)

lemma fold_deliver_connections:
  assumes "distinct (map UserID (pre @ cs))" "\<forall>x\<in>set pre. delivered env t x"
    "connections w s = Some (pre @ cs)" "pre @ cs \<noteq> []"
  shows "connections (fold (deliver env t s m) cs w) =
     (if pre @ filter (delivered env t) cs = [] then (connections w)(s := None)
      else (connections w)(s \<mapsto> pre @ filter (delivered env t) cs))"
  using assms
proof (induction cs arbitrary: pre w)
  case Nil
  then show ?case by auto
next
  case (Cons c cs)
  show ?case
  proof (cases "delivered env t c")
    case True
    let ?w1 = "deliver env t s m c w"
    have c1: "connections ?w1 = connections w" using True by (rule connections_deliver_ok)
    have "connections (fold (deliver env t s m) cs ?w1) =
       (if (pre @ [c]) @ filter (delivered env t) cs = [] then (connections ?w1)(s := None)
        else (connections ?w1)(s \<mapsto> (pre @ [c]) @ filter (delivered env t) cs))"
      using Cons.prems True by (intro Cons.IH) (auto simp: c1)
    then show ?thesis using True by (simp add: c1)
  next
    case False
    let ?w1 = "deliver env t s m c w"
    have u: "\<forall>x\<in>set pre. UserID x \<noteq> UserID c" using Cons.prems(1) by (auto simp: image_iff)
    have c1: "connections ?w1 =
       (if pre @ cs = [] then (connections w)(s := None) else (connections w)(s \<mapsto> pre @ cs))"
      using connections_deliver_fails[OF Cons.prems(3) u False] .
    show ?thesis
    proof (cases "pre @ cs = []")
      case True
      then show ?thesis using c1 False by simp
    next
      case ne: False
      have c1': "connections ?w1 = (connections w)(s \<mapsto> pre @ cs)"
        using c1 ne by auto
      have d: "distinct (map UserID (pre @ cs))" using Cons.prems(1) by simp
      have s1: "connections ?w1 s = Some (pre @ cs)" by (simp add: c1')
      have "connections (fold (deliver env t s m) cs ?w1) =
         (if pre @ filter (delivered env t) cs = [] then (connections ?w1)(s := None)
          else (connections ?w1)(s \<mapsto> pre @ filter (delivered env t) cs))"
        by (rule Cons.IH[OF d Cons.prems(2) s1 ne])
      also have "\<dots> =
         (if pre @ filter (delivered env t) cs = [] then (connections w)(s := None)
          else (connections w)(s \<mapsto> pre @ filter (delivered env t) cs))"
        by (simp only: c1' fun_upd_upd)
      finally have r: "connections (fold (deliver env t s m) cs ?w1) =
         (if pre @ filter (delivered env t) cs = [] then (connections w)(s := None)
          else (connections w)(s \<mapsto> pre @ filter (delivered env t) cs))" .
      have f1: "fold (deliver env t s m) (c # cs) w = fold (deliver env t s m) cs ?w1" by simp
      have f2: "filter (delivered env t) (c # cs) = filter (delivered env t) cs"
        using False by simp
      show ?thesis unfolding f1 f2 by (rule r)
    qed
  qed
qed

text \<open>
  When no two connections of the session have the same user id, a broadcast leaves
  in the registry exactly the connections whose write did not return an error, and
  touches no other session.
\<close>

lemma broadcast_prunes_failed:
  assumes "distinct (map UserID (snapshot w s))"
  shows "snapshot (broadcastToSession env w s m) s = filter (delivered env (tick w)) (snapshot w s)
       \<and> (\<forall>s'. s' \<noteq> s \<longrightarrow> connections (broadcastToSession env w s m) s' = connections w s')"
proof (cases "connections w s")
  case None
  then show ?thesis by (simp add: broadcastToSession_def snapshot_def)
next
  case (Some cs)
  show ?thesis
  proof (cases "cs = []")
    case True
    then show ?thesis using Some by (simp add: broadcastToSession_def snapshot_def)
  next
    case False
    let ?w0 = "w\<lparr>trace := trace w @ [Broadcast s m], tick := Suc (tick w)\<rparr>"
    have "connections (fold (deliver env (tick w) s m) cs ?w0) =
     (if [] @ filter (delivered env (tick w)) cs = [] then (connections ?w0)(s := None)
      else (connections ?w0)(s \<mapsto> [] @ filter (delivered env (tick w)) cs))"
      using assms Some False by (intro fold_deliver_connections) (auto simp: snapshot_def)
    then show ?thesis using Some False
      by (auto simp: broadcastToSession_def snapshot_def Let_def)
  qed
qed

text \<open>
  Claim C3 (a broadcast still delivers to the connections whose write succeeds, and
  removes from the registry the connection whose write fails), on an input where the
  code does not remove the failing connection. The session holds two connections of
  the user \<^verbatim>\<open>cust1\<close> (sockets 1 and 3, say two tabs) and one of
  \<^verbatim>\<open>agent1\<close> (socket 2); socket 3 is broken. The broadcast writes to all
  three, and the two healthy ones receive the message. The failed write on socket 3
  then calls \<^verbatim>\<open>removeConnection(sessionID, c.UserID)\<close>, which removes the
  first connection of \<^verbatim>\<open>cust1\<close>: the healthy socket 1 leaves the registry
  and the broken socket 3 stays in it.
\<close>

theorem broadcast_prunes_other_tab:
  "snapshot (broadcastToSession socket3_broken three_tabs ''s1'' notice) ''s1'' =
     [tab 2 ''agent1'' ''agent'', tab 3 ''cust1'' ''customer'']
   \<and> new_events three_tabs (broadcastToSession socket3_broken three_tabs ''s1'' notice) =
     [Broadcast ''s1'' notice, Write 1 notice Written, Write 2 notice Written,
      Write 3 notice WriteError, Removed ''s1'' ''cust1'']"
  by (simp add: broadcastToSession_def three_tabs_connections Let_def deliver_def
      removeConnection_def socket3_broken_def calm_def tab_def snapshot_def new_events_def)

section \<open>Errors of the store and of the bus\<close>

lemma local_deliveries:
  "local_events (concat (map (delivery_events env t s m) cs)) =
     concat (map (delivery_events env t s m) cs)"
  by (induction cs) (simp_all add: local_events_def delivery_events_def)

lemma local_events_append: "local_events (xs @ ys) = local_events xs @ local_events ys"
  by (simp add: local_events_def)

lemma local_events_Cons:
  "local_events (e # es) = (if is_local e then e # local_events es else local_events es)"
  by (simp add: local_events_def)

lemma local_events_Nil: "local_events [] = []"
  by (simp add: local_events_def)

lemma fold_deliver_connections_cong:
  assumes "WriteJSON env' = WriteJSON env" and "connections w = connections w'"
  shows "connections (fold (deliver env t s m) cs w) = connections (fold (deliver env' t s m) cs w')"
  using assms(2)
proof (induction cs arbitrary: w w')
  case Nil
  then show ?case by simp
next
  case (Cons c cs)
  have "connections (deliver env t s m c w) = connections (deliver env' t s m c w')"
    using Cons.prems assms(1)
    by (auto simp: deliver_def Let_def intro: removeConnection_connections_cong)
  then show ?case using Cons.IH by simp
qed

lemma broadcast_connections_cong:
  assumes "WriteJSON env' = WriteJSON env" "connections w = connections w'" "tick w = tick w'"
  shows "connections (broadcastToSession env w s m) = connections (broadcastToSession env' w' s m)"
proof -
  have "connections (fold (deliver env (tick w) s m) cs (w\<lparr>trace := x, tick := y\<rparr>)) =
        connections (fold (deliver env' (tick w) s m) cs (w'\<lparr>trace := x', tick := y'\<rparr>))"
    for cs x y x' y'
    using assms(2) by (intro fold_deliver_connections_cong[OF assms(1)]) simp
  then show ?thesis using assms(2,3)
    by (simp add: broadcastToSession_def Let_def)
qed

lemma handleTypingIndicator_parts:
  "connections (handleTypingIndicator env w sid uid ut b) =
     connections (broadcastToSession env (w\<lparr>tick := Suc (tick w)\<rparr>) sid
       \<lparr>Type = ''typing_indicator'', Success = False,
        Data = JObj [''session_id'' \<mapsto> JStr sid, ''user_id'' \<mapsto> JStr uid,
                     ''sender_type'' \<mapsto> JStr ut, ''is_typing'' \<mapsto> JBool b,
                     ''timestamp'' \<mapsto> JTime (time_Now env (Suc (tick w)))],
        Error = ''''\<rparr>)
   \<and> local_events (new_events w (handleTypingIndicator env w sid uid ut b)) =
       Broadcast sid
         \<lparr>Type = ''typing_indicator'', Success = False,
          Data = JObj [''session_id'' \<mapsto> JStr sid, ''user_id'' \<mapsto> JStr uid,
                       ''sender_type'' \<mapsto> JStr ut, ''is_typing'' \<mapsto> JBool b,
                       ''timestamp'' \<mapsto> JTime (time_Now env (Suc (tick w)))],
          Error = ''''\<rparr>
       # concat (map (delivery_events env (Suc (tick w)) sid
         \<lparr>Type = ''typing_indicator'', Success = False,
          Data = JObj [''session_id'' \<mapsto> JStr sid, ''user_id'' \<mapsto> JStr uid,
                       ''sender_type'' \<mapsto> JStr ut, ''is_typing'' \<mapsto> JBool b,
                       ''timestamp'' \<mapsto> JTime (time_Now env (Suc (tick w)))],
          Error = ''''\<rparr>) (snapshot w sid))"
proof -
  let ?m = "\<lparr>Type = ''typing_indicator'', Success = False,
        Data = JObj [''session_id'' \<mapsto> JStr sid, ''user_id'' \<mapsto> JStr uid,
                     ''sender_type'' \<mapsto> JStr ut, ''is_typing'' \<mapsto> JBool b,
                     ''timestamp'' \<mapsto> JTime (time_Now env (Suc (tick w)))],
        Error = ''''\<rparr>"
  let ?w1 = "snd (SetUserTyping env w sid uid b)"
  have c: "connections (broadcastToSession env ?w1 sid ?m) =
           connections (broadcastToSession env (w\<lparr>tick := Suc (tick w)\<rparr>) sid ?m)"
    by (intro broadcast_connections_cong) (simp_all add: SetUserTyping_eq)
  have 1: "connections (handleTypingIndicator env w sid uid ut b) =
           connections (broadcastToSession env ?w1 sid ?m)"
    by (simp add: handleTypingIndicator_def Let_def SendMessage_def SetUserTyping_eq)
  have 2: "local_events (new_events w (handleTypingIndicator env w sid uid ut b)) =
       Broadcast sid ?m # concat (map (delivery_events env (Suc (tick w)) sid ?m) (snapshot w sid))"
    by (simp add: handleTypingIndicator_def Let_def SendMessage_def SetUserTyping_eq
        broadcastToSession_fields new_events_def local_events_append local_events_Cons
        local_events_Nil local_deliveries snapshot_def)
  show ?thesis using 1 2 c by simp
qed

lemma typing_failures_irrelevant:
  "connections (handleTypingIndicator (env\<lparr>redis_fails := f, kafka_fails := g\<rparr>) w sid uid ut b) =
     connections (handleTypingIndicator env w sid uid ut b)
   \<and> local_events (new_events w
        (handleTypingIndicator (env\<lparr>redis_fails := f, kafka_fails := g\<rparr>) w sid uid ut b)) =
     local_events (new_events w (handleTypingIndicator env w sid uid ut b))"
proof -
  let ?env' = "env\<lparr>redis_fails := f, kafka_fails := g\<rparr>"
  have d: "delivery_events ?env' = delivery_events env"
    by (simp add: fun_eq_iff delivery_events_def)
  have b: "connections (broadcastToSession ?env' w' s m) = connections (broadcastToSession env w' s m)"
    for w' s m
    by (intro broadcast_connections_cong) simp_all
  show ?thesis
    using handleTypingIndicator_parts[of ?env' w sid uid ut b]
      handleTypingIndicator_parts[of env w sid uid ut b]
    by (simp add: d b)
qed

lemma status_publish_irrelevant:
  "connections (broadcastConnectionStatusWithContext (env\<lparr>kafka_fails := g\<rparr>) w sid et eu) =
     connections (broadcastConnectionStatusWithContext env w sid et eu)
   \<and> redisClient (broadcastConnectionStatusWithContext (env\<lparr>kafka_fails := g\<rparr>) w sid et eu) =
     redisClient (broadcastConnectionStatusWithContext env w sid et eu)
   \<and> local_events (new_events w
        (broadcastConnectionStatusWithContext (env\<lparr>kafka_fails := g\<rparr>) w sid et eu)) =
     local_events (new_events w (broadcastConnectionStatusWithContext env w sid et eu))"
proof -
  let ?env' = "env\<lparr>kafka_fails := g\<rparr>"
  have d: "delivery_events ?env' = delivery_events env"
    by (simp add: fun_eq_iff delivery_events_def)
  have b: "connections (broadcastToSession ?env' w' s m) = connections (broadcastToSession env w' s m)"
    for w' s m
    by (intro broadcast_connections_cong) simp_all
  show ?thesis
    by (simp add: broadcastConnectionStatusWithContext_def GetSessionUsers_eq Let_def
        SendMessage_def broadcastToSession_fields new_events_def d b
        local_events_append local_events_Cons local_events_Nil)
qed

lemma status_broadcast_iff:
  "(redis_fails env (tick w) \<longrightarrow>
      new_events w (broadcastConnectionStatusWithContext env w sid et eu) =
        [Redis (HGETALL (users_key sid)) True]
      \<and> connections (broadcastConnectionStatusWithContext env w sid et eu) = connections w)
   \<and> (\<not> redis_fails env (tick w) \<longrightarrow>
      (\<exists>m. broadcasts (new_events w (broadcastConnectionStatusWithContext env w sid et eu)) = [(sid, m)]
         \<and> Type m = ''connection_status_update''
         \<and> (\<forall>x\<in>set (snapshot w sid).
               Write (Conn x) m (WriteJSON env (Suc (tick w)) (Conn x))
                 \<in> set (new_events w (broadcastConnectionStatusWithContext env w sid et eu)))))"
proof (rule conjI; rule impI)
  assume "redis_fails env (tick w)"
  then show "new_events w (broadcastConnectionStatusWithContext env w sid et eu) =
        [Redis (HGETALL (users_key sid)) True]
      \<and> connections (broadcastConnectionStatusWithContext env w sid et eu) = connections w"
    by (rule status_broadcast_failed)
next
  assume "\<not> redis_fails env (tick w)"
  then obtain m pub where
    e: "new_events w (broadcastConnectionStatusWithContext env w sid et eu) =
       Redis (HGETALL (users_key sid)) False # Broadcast sid m
         # concat (map (delivery_events env (Suc (tick w)) sid m) (snapshot w sid)) @ pub"
    and p: "broadcasts pub = []"
    and m: "Type m = ''connection_status_update''"
    using status_broadcast_events[of env w sid et eu] by blast
  have b: "broadcasts (new_events w (broadcastConnectionStatusWithContext env w sid et eu)) = [(sid, m)]"
    by (simp add: e p broadcasts_Cons broadcasts_append broadcasts_deliveries)
  have "\<forall>x\<in>set (snapshot w sid).
               Write (Conn x) m (WriteJSON env (Suc (tick w)) (Conn x))
                 \<in> set (new_events w (broadcastConnectionStatusWithContext env w sid et eu))"
    by (auto simp: e delivery_events_def)
  then show "\<exists>m. broadcasts (new_events w (broadcastConnectionStatusWithContext env w sid et eu)) = [(sid, m)]
         \<and> Type m = ''connection_status_update''
         \<and> (\<forall>x\<in>set (snapshot w sid).
               Write (Conn x) m (WriteJSON env (Suc (tick w)) (Conn x))
                 \<in> set (new_events w (broadcastConnectionStatusWithContext env w sid et eu)))"
    using b m by blast
qed

lemma AddUserToSession_fields:
  "connections (snd (AddUserToSession env w sid uid ut)) = connections w
   \<and> tick (snd (AddUserToSession env w sid uid ut)) = Suc (tick w)
   \<and> (\<exists>v. trace (snd (AddUserToSession env w sid uid ut)) =
          trace w @ [Redis (HSET (users_key sid) uid v) (redis_fails env (tick w))])"
  by (simp add: AddUserToSession_eq redis_call_eq)

lemma addConnection_fields:
  "snapshot (addConnection w sid conn) sid = snapshot w sid @ [conn]
   \<and> tick (addConnection w sid conn) = tick w
   \<and> redisClient (addConnection w sid conn) = redisClient w
   \<and> trace (addConnection w sid conn) = trace w @ [Added sid conn]"
  by (auto simp: addConnection_def snapshot_def Let_def split: option.splits)

lemma sendWelcomeMessage_fields:
  "\<exists>greeting. trace (sendWelcomeMessage env w c sid uid ut) = trace w @ [greeting]
      \<and> broadcasts [greeting] = []"
proof -
  obtain m where "sendWelcomeMessage env w c sid uid ut = snd (safeWriteToConn env w c m)"
    by (simp add: sendWelcomeMessage_def Let_def)
  then have "trace (sendWelcomeMessage env w c sid uid ut) =
               trace w @ [Write c m (WriteJSON env (tick w) c)]"
    by (simp add: safeWriteToConn_eq)
  moreover have "broadcasts [Write c m (WriteJSON env (tick w) c)] = []"
    by (simp add: broadcasts_Cons broadcasts_Nil)
  ultimately show ?thesis by blast
qed

lemma enter_active_eq:
  "enter_active env w c sid uid ut =
     sendWelcomeMessage env
       (broadcastConnectionStatusWithContext env
          (snd (AddUserToSession env
                  (addConnection w sid \<lparr>Conn = c, UserID = uid, UserType = ut, SessionID = sid\<rparr>)
                  sid uid ut)) sid ''user_connected'' uid)
       c sid uid ut"
  by (simp add: enter_active_def Let_def)

lemma enter_active_events:
  "\<exists>v greeting.
     new_events w (enter_active env w c sid uid ut) =
       Added sid \<lparr>Conn = c, UserID = uid, UserType = ut, SessionID = sid\<rparr>
       # Redis (HSET (users_key sid) uid v) (redis_fails env (tick w))
       # new_events (snd (AddUserToSession env
                      (addConnection w sid \<lparr>Conn = c, UserID = uid, UserType = ut, SessionID = sid\<rparr>)
                      sid uid ut))
           (broadcastConnectionStatusWithContext env
              (snd (AddUserToSession env
                      (addConnection w sid \<lparr>Conn = c, UserID = uid, UserType = ut, SessionID = sid\<rparr>)
                      sid uid ut)) sid ''user_connected'' uid)
       @ [greeting]
     \<and> broadcasts [greeting] = []"
proof -
  let ?conn = "\<lparr>Conn = c, UserID = uid, UserType = ut, SessionID = sid\<rparr>"
  let ?w1 = "addConnection w sid ?conn"
  let ?w2 = "snd (AddUserToSession env ?w1 sid uid ut)"
  let ?w3 = "broadcastConnectionStatusWithContext env ?w2 sid ''user_connected'' uid"
  have t1: "trace ?w1 = trace w @ [Added sid ?conn]" "tick ?w1 = tick w"
    using addConnection_fields[of w sid ?conn] by simp_all
  obtain v where "trace ?w2 = trace ?w1 @ [Redis (HSET (users_key sid) uid v) (redis_fails env (tick ?w1))]"
    using AddUserToSession_fields[of env ?w1 sid uid ut] by blast
  then have t2: "trace ?w2 = trace w @ [Added sid ?conn,
      Redis (HSET (users_key sid) uid v) (redis_fails env (tick w))]"
    by (simp add: t1)
  have t3: "trace ?w3 = trace ?w2 @ new_events ?w2 ?w3" by (rule new_events_bcs)
  obtain greeting where
    g: "trace (sendWelcomeMessage env ?w3 c sid uid ut) = trace ?w3 @ [greeting]"
    and b: "broadcasts [greeting] = []"
    using sendWelcomeMessage_fields[of env ?w3 c sid uid ut] by blast
  have "trace (enter_active env w c sid uid ut) =
          (trace w @ [Added sid ?conn,
             Redis (HSET (users_key sid) uid v) (redis_fails env (tick w))])
          @ new_events ?w2 ?w3 @ [greeting]"
    unfolding enter_active_eq g t3 t2 by simp
  then have "new_events w (enter_active env w c sid uid ut) =
       Added sid ?conn # Redis (HSET (users_key sid) uid v) (redis_fails env (tick w))
       # new_events ?w2 ?w3 @ [greeting]"
    by (simp add: new_events_def)
  then show ?thesis using b by blast
qed

lemma enter_active_broadcasts:
  "(broadcasts (new_events w (enter_active env w c sid uid ut)) = []) = redis_fails env (Suc (tick w))
   \<and> (\<not> redis_fails env (Suc (tick w)) \<longrightarrow>
        (\<exists>m. broadcasts (new_events w (enter_active env w c sid uid ut)) = [(sid, m)]
           \<and> Type m = ''connection_status_update''
           \<and> Write c m (WriteJSON env (Suc (Suc (tick w))) c)
                \<in> set (new_events w (enter_active env w c sid uid ut))))"
proof -
  let ?conn = "\<lparr>Conn = c, UserID = uid, UserType = ut, SessionID = sid\<rparr>"
  let ?w1 = "addConnection w sid ?conn"
  let ?w2 = "snd (AddUserToSession env ?w1 sid uid ut)"
  let ?w3 = "broadcastConnectionStatusWithContext env ?w2 sid ''user_connected'' uid"
  obtain v greeting where
    e: "new_events w (enter_active env w c sid uid ut) =
       Added sid ?conn # Redis (HSET (users_key sid) uid v) (redis_fails env (tick w))
       # new_events ?w2 ?w3 @ [greeting]"
    and g: "broadcasts [greeting] = []"
    using enter_active_events[of w env c sid uid ut] by blast
  have t2: "tick ?w2 = Suc (tick w)"
    using AddUserToSession_fields[of env ?w1 sid uid ut] addConnection_fields[of w sid ?conn]
    by simp
  have "connections ?w2 = connections ?w1"
    using AddUserToSession_fields[of env ?w1 sid uid ut] by simp
  then have "snapshot ?w2 sid = snapshot ?w1 sid" by (rule snapshot_cong)
  then have s2: "snapshot ?w2 sid = snapshot w sid @ [?conn]"
    using addConnection_fields[of w sid ?conn] by simp
  have g': "broadcast_of greeting = []"
    using g by (simp add: broadcasts_Cons broadcasts_Nil)
  have b: "broadcasts (new_events w (enter_active env w c sid uid ut)) = broadcasts (new_events ?w2 ?w3)"
    by (simp add: e g' broadcasts_Cons broadcasts_append broadcasts_Nil)
  note i = status_broadcast_iff[of env ?w2 sid "''user_connected''" uid]
  show ?thesis
  proof (cases "redis_fails env (Suc (tick w))")
    case True
    then have "new_events ?w2 ?w3 = [Redis (HGETALL (users_key sid)) True]"
      using i t2 by simp
    then show ?thesis using True b by (simp add: broadcasts_Cons broadcasts_Nil)
  next
    case False
    then obtain m where
      m: "broadcasts (new_events ?w2 ?w3) = [(sid, m)]" "Type m = ''connection_status_update''"
      and d: "\<forall>x\<in>set (snapshot ?w2 sid).
               Write (Conn x) m (WriteJSON env (Suc (tick ?w2)) (Conn x)) \<in> set (new_events ?w2 ?w3)"
      using i t2 by auto
    have "Write c m (WriteJSON env (Suc (Suc (tick w))) c) \<in> set (new_events ?w2 ?w3)"
      using d s2 t2 by simp
    then have "Write c m (WriteJSON env (Suc (Suc (tick w))) c)
                \<in> set (new_events w (enter_active env w c sid uid ut))"
      by (simp add: e)
    then show ?thesis using False b m by simp
  qed
qed

lemma run_deferred_local:
  "(broadcasts (new_events w (run_deferred env w c sid uid ut)) = []) = redis_fails env (Suc (tick w))
   \<and> Removed sid uid \<in> set (new_events w (run_deferred env w c sid uid ut))
   \<and> (\<not> redis_fails env (Suc (tick w)) \<longrightarrow>
        (\<exists>m. broadcasts (new_events w (run_deferred env w c sid uid ut)) = [(sid, m)]
           \<and> Type m = ''connection_status_update''
           \<and> (\<forall>x\<in>set (snapshot (removeConnection w sid uid) sid).
                 Write (Conn x) m (WriteJSON env (Suc (Suc (tick w))) (Conn x))
                   \<in> set (new_events w (run_deferred env w c sid uid ut)))))"
proof -
  obtain rest where
    ev: "new_events w (run_deferred env w c sid uid ut) =
       [Redis (HDEL (users_key sid) uid) (redis_fails env (tick w)), Removed sid uid,
        Redis (HGETALL (users_key sid)) (redis_fails env (Suc (tick w)))] @ rest @ [Closed c]"
    and f: "redis_fails env (Suc (tick w)) \<longrightarrow> rest = []"
    and s: "\<not> redis_fails env (Suc (tick w)) \<longrightarrow>
         (\<exists>m pub. rest = Broadcast sid m
                 # concat (map (delivery_events env (Suc (Suc (tick w))) sid m)
                             (snapshot (removeConnection w sid uid) sid)) @ pub
            \<and> broadcasts pub = []
            \<and> Type m = ''connection_status_update''
            \<and> field (Data m) ''event_type'' = Some (JStr ''user_disconnected'')
            \<and> field (Data m) ''event_user_id'' = (if uid = '''' then None else Some (JStr uid))
            \<and> field (Data m) ''connection_status'' =
                Some (JObj (session_status (hashes
                   (redisClient (snd (RemoveUserFromSession env w sid uid ut))) (users_key sid)))))"
    using run_deferred_trace[of w env c sid uid ut] by blast
  have r: "Removed sid uid \<in> set (new_events w (run_deferred env w c sid uid ut))"
    by (simp add: ev)
  show ?thesis
  proof (cases "redis_fails env (Suc (tick w))")
    case True
    then show ?thesis using ev f r by (simp add: broadcasts_Cons broadcasts_Nil)
  next
    case False
    then obtain m pub where
      rest: "rest = Broadcast sid m
                 # concat (map (delivery_events env (Suc (Suc (tick w))) sid m)
                             (snapshot (removeConnection w sid uid) sid)) @ pub"
      and p: "broadcasts pub = []"
      and m: "Type m = ''connection_status_update''"
      using s by blast
    have b: "broadcasts (new_events w (run_deferred env w c sid uid ut)) = [(sid, m)]"
      by (simp add: ev rest p broadcasts_Nil broadcasts_Cons broadcasts_append broadcasts_deliveries)
    have d: "\<forall>x\<in>set (snapshot (removeConnection w sid uid) sid).
                 Write (Conn x) m (WriteJSON env (Suc (Suc (tick w))) (Conn x))
                   \<in> set (new_events w (run_deferred env w c sid uid ut))"
      by (auto simp: ev rest delivery_events_def)
    show ?thesis using False r b m d by simp
  qed
qed

lemma sendWelcomeMessage_connections:
  "connections (sendWelcomeMessage env w c sid uid ut) = connections w"
  by (simp add: sendWelcomeMessage_def Let_def safeWriteToConn_eq)

lemma enter_active_read_failed:
  assumes "redis_fails env (Suc (tick w))"
  shows "connections (enter_active env w c sid uid ut) =
     connections (addConnection w sid \<lparr>Conn = c, UserID = uid, UserType = ut, SessionID = sid\<rparr>)"
proof -
  let ?conn = "\<lparr>Conn = c, UserID = uid, UserType = ut, SessionID = sid\<rparr>"
  let ?w2 = "snd (AddUserToSession env (addConnection w sid ?conn) sid uid ut)"
  have t2: "tick ?w2 = Suc (tick w)"
    using AddUserToSession_fields[of env "addConnection w sid ?conn" sid uid ut]
      addConnection_fields[of w sid ?conn]
    by simp
  have c2: "connections ?w2 = connections (addConnection w sid ?conn)"
    using AddUserToSession_fields[of env "addConnection w sid ?conn" sid uid ut] by simp
  have "connections (broadcastConnectionStatusWithContext env ?w2 sid ''user_connected'' uid) =
          connections ?w2"
    using status_broadcast_failed[of env ?w2 sid "''user_connected''" uid] assms t2 by simp
  then show ?thesis
    by (simp add: enter_active_eq sendWelcomeMessage_connections c2)
qed

lemma run_deferred_read_failed:
  assumes "redis_fails env (Suc (tick w))"
  shows "connections (run_deferred env w c sid uid ut) = connections (removeConnection w sid uid)"
proof -
  let ?w1 = "snd (RemoveUserFromSession env w sid uid ut)"
  let ?w2 = "removeConnection ?w1 sid uid"
  have t2: "tick ?w2 = Suc (tick w)"
    by (simp add: removeConnection_other_fields RemoveUserFromSession_eq)
  have "connections ?w1 = connections w" by (simp add: RemoveUserFromSession_eq)
  then have c2: "connections ?w2 = connections (removeConnection w sid uid)"
    by (rule removeConnection_connections_cong)
  have "connections (broadcastConnectionStatusWithContext env ?w2 sid ''user_disconnected'' uid) =
          connections ?w2"
    using status_broadcast_failed[of env ?w2 sid "''user_disconnected''" uid] assms t2 by simp
  then show ?thesis
    by (simp add: run_deferred_eq Let_def c2)
qed

text \<open>
  Claim C4, as amended. Whether the presence store and the bus fail does not change
  what the typing handler does locally: the registry and the local events (the
  broadcast and the socket writes) are the same, and the typing indicator is always
  broadcast. A failed publish changes neither the registry, nor the store, nor the
  local events of a status broadcast. On connect and on disconnect the presence write
  may fail: the registry is changed all the same, and the status is broadcast, to the
  connections registered after that change, exactly when the read of the presence
  succeeds. When that read fails the status broadcast does nothing else: no local
  broadcast, no publish; the registry stays as the connect or the disconnect left it.
\<close>

theorem collaborator_errors_keep_local_effects:
  "(connections (handleTypingIndicator (env\<lparr>redis_fails := f, kafka_fails := g\<rparr>) w sid uid ut b) =
      connections (handleTypingIndicator env w sid uid ut b)
    \<and> local_events (new_events w
         (handleTypingIndicator (env\<lparr>redis_fails := f, kafka_fails := g\<rparr>) w sid uid ut b)) =
      local_events (new_events w (handleTypingIndicator env w sid uid ut b))
    \<and> (\<exists>m. broadcasts (new_events w (handleTypingIndicator env w sid uid ut b)) = [(sid, m)]
          \<and> Type m = ''typing_indicator''))
   \<and> (connections (broadcastConnectionStatusWithContext (env\<lparr>kafka_fails := g\<rparr>) w sid et eu) =
        connections (broadcastConnectionStatusWithContext env w sid et eu)
      \<and> redisClient (broadcastConnectionStatusWithContext (env\<lparr>kafka_fails := g\<rparr>) w sid et eu) =
        redisClient (broadcastConnectionStatusWithContext env w sid et eu)
      \<and> local_events (new_events w
           (broadcastConnectionStatusWithContext (env\<lparr>kafka_fails := g\<rparr>) w sid et eu)) =
        local_events (new_events w (broadcastConnectionStatusWithContext env w sid et eu)))
   \<and> (redis_fails env (tick w) \<longrightarrow>
        new_events w (broadcastConnectionStatusWithContext env w sid et eu) =
          [Redis (HGETALL (users_key sid)) True]
        \<and> connections (broadcastConnectionStatusWithContext env w sid et eu) = connections w)
   \<and> (\<not> redis_fails env (tick w) \<longrightarrow>
        (\<exists>m. broadcasts (new_events w (broadcastConnectionStatusWithContext env w sid et eu)) = [(sid, m)]
           \<and> Type m = ''connection_status_update''
           \<and> (\<forall>x\<in>set (snapshot w sid).
                 Write (Conn x) m (WriteJSON env (Suc (tick w)) (Conn x))
                   \<in> set (new_events w (broadcastConnectionStatusWithContext env w sid et eu)))))
   \<and> ((broadcasts (new_events w (enter_active env w c sid uid ut)) = []) = redis_fails env (Suc (tick w))
      \<and> (\<not> redis_fails env (Suc (tick w)) \<longrightarrow>
          (\<exists>m. broadcasts (new_events w (enter_active env w c sid uid ut)) = [(sid, m)]
             \<and> Type m = ''connection_status_update''
             \<and> Write c m (WriteJSON env (Suc (Suc (tick w))) c)
                  \<in> set (new_events w (enter_active env w c sid uid ut)))))
   \<and> ((broadcasts (new_events w (run_deferred env w c sid uid ut)) = []) = redis_fails env (Suc (tick w))
      \<and> Removed sid uid \<in> set (new_events w (run_deferred env w c sid uid ut))
      \<and> (\<not> redis_fails env (Suc (tick w)) \<longrightarrow>
          (\<exists>m. broadcasts (new_events w (run_deferred env w c sid uid ut)) = [(sid, m)]
             \<and> Type m = ''connection_status_update''
             \<and> (\<forall>x\<in>set (snapshot (removeConnection w sid uid) sid).
                   Write (Conn x) m (WriteJSON env (Suc (Suc (tick w))) (Conn x))
                     \<in> set (new_events w (run_deferred env w c sid uid ut))))))
   \<and> (redis_fails env (Suc (tick w)) \<longrightarrow>
        connections (enter_active env w c sid uid ut) =
          connections (addConnection w sid
            \<lparr>Conn = c, UserID = uid, UserType = ut, SessionID = sid\<rparr>)
        \<and> connections (run_deferred env w c sid uid ut) =
          connections (removeConnection w sid uid))"
proof -
  have t: "\<exists>m. broadcasts (new_events w (handleTypingIndicator env w sid uid ut b)) = [(sid, m)]
          \<and> Type m = ''typing_indicator''"
    using handleTypingIndicator_effects[of w env sid uid ut b] by blast
  note a = typing_failures_irrelevant[where env = env and f = f and g = g and w = w
      and sid = sid and uid = uid and ut = ut and b = b]
  note p = status_publish_irrelevant[where env = env and g = g and w = w
      and sid = sid and et = et and eu = eu]
  note i = status_broadcast_iff[of env w sid et eu]
  note e = enter_active_broadcasts[of w env c sid uid ut]
  note l = run_deferred_local[of w env c sid uid ut]
  note x = enter_active_read_failed[of env w c sid uid ut]
  note y = run_deferred_read_failed[of env w c sid uid ut]
  show ?thesis
    apply (intro conjI)
    using a t p i e l x y by blast+
qed

lemma two_present_snapshot:
  "snapshot two_present ''s1'' = [tab 1 ''cust1'' ''customer'', tab 2 ''agent1'' ''agent'']"
  "snapshot (removeConnection two_present ''s1'' ''cust1'') ''s1'' = [tab 2 ''agent1'' ''agent'']"
  "tick two_present = 2"
  by (simp_all add: two_present_eq snapshot_def removeConnection_def tab_def Let_def)

theorem collaborator_errors_keep_local_effects_witness:
  "(connections (handleTypingIndicator store_and_bus_down two_present ''s1'' ''cust1'' ''customer'' True) =
     connections (handleTypingIndicator calm two_present ''s1'' ''cust1'' ''customer'' True)
   \<and> local_events (new_events two_present
        (handleTypingIndicator store_and_bus_down two_present ''s1'' ''cust1'' ''customer'' True)) =
      local_events (new_events two_present
        (handleTypingIndicator calm two_present ''s1'' ''cust1'' ''customer'' True))
   \<and> (\<exists>m. broadcasts (new_events two_present
             (handleTypingIndicator calm two_present ''s1'' ''cust1'' ''customer'' True)) = [(''s1'', m)]
          \<and> Type m = ''typing_indicator'')
   \<and> (\<exists>m. broadcasts (new_events two_present
             (broadcastConnectionStatusWithContext calm two_present ''s1'' ''user_connected'' ''cust1''))
            = [(''s1'', m)]
          \<and> Write 1 m Written \<in> set (new_events two_present
             (broadcastConnectionStatusWithContext calm two_present ''s1'' ''user_connected'' ''cust1''))
          \<and> Write 2 m Written \<in> set (new_events two_present
             (broadcastConnectionStatusWithContext calm two_present ''s1'' ''user_connected'' ''cust1'')))
   \<and> (\<exists>m. broadcasts (new_events two_present
             (enter_active calm two_present 4 ''s1'' ''agent2'' ''agent'')) = [(''s1'', m)]
          \<and> Write 4 m Written \<in> set (new_events two_present
             (enter_active calm two_present 4 ''s1'' ''agent2'' ''agent'')))
   \<and> (\<exists>m. broadcasts (new_events two_present
             (run_deferred calm two_present 1 ''s1'' ''cust1'' ''customer'')) = [(''s1'', m)]
          \<and> Write 2 m Written \<in> set (new_events two_present
             (run_deferred calm two_present 1 ''s1'' ''cust1'' ''customer''))))
   \<and> new_events two_present
     (broadcastConnectionStatusWithContext leave_fails two_present ''s1'' ''user_connected'' ''cust1'') =
     [Redis (HGETALL (users_key ''s1'')) True]
   \<and> broadcasts (new_events two_present
        (enter_active read_fails two_present 4 ''s1'' ''agent2'' ''agent'')) = []
   \<and> broadcasts (new_events two_present
        (run_deferred read_fails two_present 1 ''s1'' ''cust1'' ''customer'')) = []
   \<and> Removed ''s1'' ''cust1'' \<in> set (new_events two_present
        (run_deferred read_fails two_present 1 ''s1'' ''cust1'' ''customer''))
   \<and> connections (run_deferred read_fails two_present 1 ''s1'' ''cust1'' ''customer'') =
       connections (removeConnection two_present ''s1'' ''cust1'')"
proof -
  have c: "calm\<lparr>redis_fails := (\<lambda>t. True), kafka_fails := (\<lambda>t. True)\<rparr> = store_and_bus_down"
    by (simp add: store_and_bus_down_def)
  have n: "\<not> redis_fails calm t" "WriteJSON calm t x = Written" for t x
    by (simp_all add: calm_def)
  note a = collaborator_errors_keep_local_effects[where env = calm and f = "\<lambda>t. True"
      and g = "\<lambda>t. True" and w = two_present and sid = "''s1''" and uid = "''cust1''"
      and ut = "''customer''" and b = True and et = "''user_connected''" and eu = "''cust1''"
      and c = 1]
  note b = collaborator_errors_keep_local_effects[where env = calm and f = "\<lambda>t. True"
      and g = "\<lambda>t. True" and w = two_present and sid = "''s1''" and uid = "''agent2''"
      and ut = "''agent''" and b = True and et = "''user_connected''" and eu = "''cust1''"
      and c = 4]
  have calm_part: "connections (handleTypingIndicator store_and_bus_down two_present ''s1'' ''cust1'' ''customer'' True) =
     connections (handleTypingIndicator calm two_present ''s1'' ''cust1'' ''customer'' True)
   \<and> local_events (new_events two_present
        (handleTypingIndicator store_and_bus_down two_present ''s1'' ''cust1'' ''customer'' True)) =
      local_events (new_events two_present
        (handleTypingIndicator calm two_present ''s1'' ''cust1'' ''customer'' True))
   \<and> (\<exists>m. broadcasts (new_events two_present
             (handleTypingIndicator calm two_present ''s1'' ''cust1'' ''customer'' True)) = [(''s1'', m)]
          \<and> Type m = ''typing_indicator'')
   \<and> (\<exists>m. broadcasts (new_events two_present
             (broadcastConnectionStatusWithContext calm two_present ''s1'' ''user_connected'' ''cust1''))
            = [(''s1'', m)]
          \<and> Write 1 m Written \<in> set (new_events two_present
             (broadcastConnectionStatusWithContext calm two_present ''s1'' ''user_connected'' ''cust1''))
          \<and> Write 2 m Written \<in> set (new_events two_present
             (broadcastConnectionStatusWithContext calm two_present ''s1'' ''user_connected'' ''cust1'')))
   \<and> (\<exists>m. broadcasts (new_events two_present
             (enter_active calm two_present 4 ''s1'' ''agent2'' ''agent'')) = [(''s1'', m)]
          \<and> Write 4 m Written \<in> set (new_events two_present
             (enter_active calm two_present 4 ''s1'' ''agent2'' ''agent'')))
   \<and> (\<exists>m. broadcasts (new_events two_present
             (run_deferred calm two_present 1 ''s1'' ''cust1'' ''customer'')) = [(''s1'', m)]
          \<and> Write 2 m Written \<in> set (new_events two_present
             (run_deferred calm two_present 1 ''s1'' ''cust1'' ''customer'')))"
    using a b
    unfolding c
    by (auto simp: n two_present_snapshot tab_def)
  have t2: "tick two_present = 2" by (simp add: two_present_eq)
  have f2: "redis_fails leave_fails 2" "redis_fails read_fails 3"
    by (simp_all add: leave_fails_def read_fails_def calm_def)
  note a2 = collaborator_errors_keep_local_effects[where env = leave_fails and f = "\<lambda>t. True"
      and g = "\<lambda>t. True" and w = two_present and sid = "''s1''" and uid = "''cust1''"
      and ut = "''customer''" and b = True and et = "''user_connected''" and eu = "''cust1''"
      and c = 1]
  note b2 = collaborator_errors_keep_local_effects[where env = read_fails and f = "\<lambda>t. True"
      and g = "\<lambda>t. True" and w = two_present and sid = "''s1''" and uid = "''agent2''"
      and ut = "''agent''" and b = True and et = "''user_connected''" and eu = "''cust1''"
      and c = 4]
  note c2 = collaborator_errors_keep_local_effects[where env = read_fails and f = "\<lambda>t. True"
      and g = "\<lambda>t. True" and w = two_present and sid = "''s1''" and uid = "''cust1''"
      and ut = "''customer''" and b = True and et = "''user_connected''" and eu = "''cust1''"
      and c = 1]
  have 1: "new_events two_present
     (broadcastConnectionStatusWithContext leave_fails two_present ''s1'' ''user_connected'' ''cust1'') =
     [Redis (HGETALL (users_key ''s1'')) True]"
    using a2 f2 t2 by simp
  have 2: "broadcasts (new_events two_present
        (enter_active read_fails two_present 4 ''s1'' ''agent2'' ''agent'')) = []"
    using b2 f2 t2 by (simp add: numeral_3_eq_3)
  have 3: "broadcasts (new_events two_present
        (run_deferred read_fails two_present 1 ''s1'' ''cust1'' ''customer'')) = []
     \<and> Removed ''s1'' ''cust1'' \<in> set (new_events two_present
        (run_deferred read_fails two_present 1 ''s1'' ''cust1'' ''customer''))"
    using c2 f2 t2 by (simp add: numeral_3_eq_3)
  have 4: "connections (run_deferred read_fails two_present 1 ''s1'' ''cust1'' ''customer'') =
       connections (removeConnection two_present ''s1'' ''cust1'')"
    using c2 f2 t2 by (simp add: numeral_3_eq_3)
  show ?thesis using calm_part 1 2 3 4 by blast
qed

text \<open>
  The claim as stated fails for a failed read of the presence: on disconnect of
  \<^verbatim>\<open>cust1\<close> with the read failing, nothing is broadcast although
  \<^verbatim>\<open>agent1\<close> is still registered.
\<close>

theorem status_read_failure_counterexample:
  "broadcasts (new_events two_present
      (run_deferred read_fails two_present 1 ''s1'' ''cust1'' ''customer'')) = []
   \<and> snapshot (run_deferred read_fails two_present 1 ''s1'' ''cust1'' ''customer'') ''s1'' =
       [tab 2 ''agent1'' ''agent'']"
proof -
  have f: "redis_fails read_fails (Suc (tick two_present))"
    by (simp add: read_fails_def calm_def two_present_snapshot)
  have 1: "broadcasts (new_events two_present
      (run_deferred read_fails two_present 1 ''s1'' ''cust1'' ''customer'')) = []"
    using run_deferred_broadcasts[of read_fails two_present 1 "''s1''" "''cust1''" "''customer''"] f
    by simp
  let ?w2 = "removeConnection (snd (RemoveUserFromSession read_fails two_present ''s1'' ''cust1'' ''customer''))
               ''s1'' ''cust1''"
  have t2: "tick ?w2 = Suc (tick two_present)"
    by (simp add: removeConnection_other_fields RemoveUserFromSession_eq)
  have "connections (snd (RemoveUserFromSession read_fails two_present ''s1'' ''cust1'' ''customer'')) =
        connections two_present"
    by (simp add: RemoveUserFromSession_eq)
  then have s2: "snapshot ?w2 ''s1'' = snapshot (removeConnection two_present ''s1'' ''cust1'') ''s1''"
    by (intro snapshot_cong removeConnection_connections_cong)
  have "connections (broadcastConnectionStatusWithContext read_fails ?w2 ''s1'' ''user_disconnected'' ''cust1'')
          = connections ?w2"
    using status_broadcast_failed[of read_fails ?w2 "''s1''" "''user_disconnected''" "''cust1''"] f t2
    by simp
  then have "snapshot (run_deferred read_fails two_present 1 ''s1'' ''cust1'' ''customer'') ''s1'' =
          snapshot ?w2 ''s1''"
    by (simp add: run_deferred_eq Let_def snapshot_def)
  then show ?thesis using 1 s2 by (simp add: two_present_snapshot)
qed

end
